theory Spec2Isabelle
  imports Main "HOL-Library.Sublist"
begin

section \<open>JavaScript strings and property lookup\<close>

text \<open>
  A source string is a \<^typ>\<open>string\<close>; each \<^typ>\<open>char\<close> stands for the UTF-16 code unit
  with the same number, so the model covers the strings over U+0000 .. U+00FF. On that
  range both \<^verbatim>\<open>String.prototype.trim\<close> and \<^verbatim>\<open>String.prototype.toLowerCase\<close>
  stay inside the range and work code unit by code unit.
\<close>

definition isWhiteSpace :: "char \<Rightarrow> bool" where
  \<comment> \<open>WhiteSpace and LineTerminator of ECMAScript below U+0100: TAB, LF, VT, FF, CR, SP, NBSP.\<close>
  "isWhiteSpace c = (of_char c \<in> {9, 10, 11, 12, 13, 32, 160 :: nat})"

definition trim :: "string \<Rightarrow> string" where
  "trim s = rev (dropWhile isWhiteSpace (rev (dropWhile isWhiteSpace s)))"

definition lowerChar :: "char \<Rightarrow> char" where
  \<comment> \<open>A..Z and the capital letters U+00C0 .. U+00DE (U+00D7, the multiplication sign, apart).\<close>
  "lowerChar c =
     (let n = (of_char c :: nat)
      in if (65 \<le> n \<and> n \<le> 90) \<or> (192 \<le> n \<and> n \<le> 222 \<and> n \<noteq> 215)
         then char_of (n + 32) else c)"

definition toLowerCase :: "string \<Rightarrow> string" where
  "toLowerCase s = map lowerChar s"

text \<open>
  The values a property read on a plain object literal can give in this program: a string
  stored in the object, or a member inherited from \<^verbatim>\<open>Object.prototype\<close>. A plain
  object literal \<^verbatim>\<open>{ ... }\<close> has \<^verbatim>\<open>Object.prototype\<close> as its prototype, so
  \<^verbatim>\<open>obj[key]\<close> finds the inherited member when \<^verbatim>\<open>key\<close> is not an own property.
\<close>

datatype js_value =
    Str string
  | ObjectConstructor
  | ObjectPrototype
  | PrototypeMethod string

definition Object_prototype_lookup :: "string \<Rightarrow> js_value option" where
  "Object_prototype_lookup key =
     (if key = ''constructor'' then Some ObjectConstructor
      else if key = ''__proto__'' then Some ObjectPrototype
      else if key \<in> set [''hasOwnProperty'', ''isPrototypeOf'', ''propertyIsEnumerable'',
                          ''toLocaleString'', ''toString'', ''valueOf'',
                          ''__defineGetter__'', ''__defineSetter__'',
                          ''__lookupGetter__'', ''__lookupSetter__'']
      then Some (PrototypeMethod key)
      else None)"

definition truthy :: "js_value \<Rightarrow> bool" where
  \<comment> \<open>\<^verbatim>\<open>Boolean(v)\<close>: of these values only the empty string is falsy.\<close>
  "truthy v = (v \<noteq> Str [])"

datatype js_error = TypeError

section \<open>Name normalizer (tool-policy-shared.ts)\<close>

definition TOOL_NAME_ALIASES :: "string \<Rightarrow> js_value option" where
  \<comment> \<open>\<^verbatim>\<open>TOOL_NAME_ALIASES[key]\<close>: the two own properties, then the prototype.\<close>
  "TOOL_NAME_ALIASES key =
     (if key = ''bash'' then Some (Str ''exec'')
      else if key = ''apply-patch'' then Some (Str ''apply_patch'')
      else Object_prototype_lookup key)"

definition normalizeToolName :: "string \<Rightarrow> js_value" where
  "normalizeToolName nm =
     (let normalized = toLowerCase (trim nm)
      in case TOOL_NAME_ALIASES normalized of
           Some v \<Rightarrow> v
         | None \<Rightarrow> Str normalized)"

definition normalizeToolName_value :: "js_value \<Rightarrow> js_error + js_value" where
  \<comment> \<open>\<^verbatim>\<open>normalizeToolName(v)\<close> on the result of an earlier call: \<^verbatim>\<open>v.trim\<close> is
      undefined unless \<^verbatim>\<open>v\<close> is a string, and calling it throws a TypeError.\<close>
  "normalizeToolName_value v =
     (case v of Str s \<Rightarrow> Inr (normalizeToolName s) | _ \<Rightarrow> Inl TypeError)"

definition normalizeToolList :: "string list option \<Rightarrow> js_value list" where
  "normalizeToolList list =
     (case list of None \<Rightarrow> [] | Some xs \<Rightarrow> filter truthy (map normalizeToolName xs))"

section \<open>Tool catalog and built-in profiles (tool-catalog)\<close>

type_synonym ToolProfileId = string
  \<comment> \<open>\<^verbatim>\<open>"minimal" | "coding" | "messaging" | "full"\<close>; at run time a plain string.\<close>

record ToolProfilePolicy =
  allow :: "string list option"
  deny :: "string list option"

record CoreToolDefinition =
  toolId :: string
  toolLabel :: string
  description :: string
  sectionId :: string
  profiles :: "ToolProfileId list"
  includeInOpenClawGroup :: "bool option"

definition CORE_TOOL_DEFINITIONS :: "CoreToolDefinition list" where
  "CORE_TOOL_DEFINITIONS = [
     \<lparr>toolId = ''read'', toolLabel = ''read'', description = ''Read file contents'',
      sectionId = ''fs'', profiles = [''coding''], includeInOpenClawGroup = None\<rparr>,
     \<lparr>toolId = ''write'', toolLabel = ''write'', description = ''Create or overwrite files'',
      sectionId = ''fs'', profiles = [''coding''], includeInOpenClawGroup = None\<rparr>,
     \<lparr>toolId = ''edit'', toolLabel = ''edit'', description = ''Make precise edits'',
      sectionId = ''fs'', profiles = [''coding''], includeInOpenClawGroup = None\<rparr>,
     \<lparr>toolId = ''apply_patch'', toolLabel = ''apply_patch'', description = ''Patch files (OpenAI)'',
      sectionId = ''fs'', profiles = [''coding''], includeInOpenClawGroup = None\<rparr>,
     \<lparr>toolId = ''exec'', toolLabel = ''exec'', description = ''Run shell commands'',
      sectionId = ''runtime'', profiles = [''coding''], includeInOpenClawGroup = None\<rparr>,
     \<lparr>toolId = ''process'', toolLabel = ''process'', description = ''Manage background processes'',
      sectionId = ''runtime'', profiles = [''coding''], includeInOpenClawGroup = None\<rparr>,
     \<lparr>toolId = ''web_search'', toolLabel = ''web_search'', description = ''Search the web'',
      sectionId = ''web'', profiles = [], includeInOpenClawGroup = Some True\<rparr>,
     \<lparr>toolId = ''web_fetch'', toolLabel = ''web_fetch'', description = ''Fetch web content'',
      sectionId = ''web'', profiles = [], includeInOpenClawGroup = Some True\<rparr>,
     \<lparr>toolId = ''memory_search'', toolLabel = ''memory_search'', description = ''Semantic search'',
      sectionId = ''memory'', profiles = [''coding''], includeInOpenClawGroup = Some True\<rparr>,
     \<lparr>toolId = ''memory_get'', toolLabel = ''memory_get'', description = ''Read memory files'',
      sectionId = ''memory'', profiles = [''coding''], includeInOpenClawGroup = Some True\<rparr>,
     \<lparr>toolId = ''sessions_list'', toolLabel = ''sessions_list'', description = ''List sessions'',
      sectionId = ''sessions'', profiles = [''coding'', ''messaging''], includeInOpenClawGroup = Some True\<rparr>,
     \<lparr>toolId = ''sessions_history'', toolLabel = ''sessions_history'', description = ''Session history'',
      sectionId = ''sessions'', profiles = [''coding'', ''messaging''], includeInOpenClawGroup = Some True\<rparr>,
     \<lparr>toolId = ''sessions_send'', toolLabel = ''sessions_send'', description = ''Send to session'',
      sectionId = ''sessions'', profiles = [''coding'', ''messaging''], includeInOpenClawGroup = Some True\<rparr>,
     \<lparr>toolId = ''sessions_spawn'', toolLabel = ''sessions_spawn'', description = ''Spawn sub-agent'',
      sectionId = ''sessions'', profiles = [''coding''], includeInOpenClawGroup = Some True\<rparr>,
     \<lparr>toolId = ''subagents'', toolLabel = ''subagents'', description = ''Manage sub-agents'',
      sectionId = ''sessions'', profiles = [''coding''], includeInOpenClawGroup = Some True\<rparr>,
     \<lparr>toolId = ''session_status'', toolLabel = ''session_status'', description = ''Session status'',
      sectionId = ''sessions'', profiles = [''minimal'', ''coding'', ''messaging''], includeInOpenClawGroup = Some True\<rparr>,
     \<lparr>toolId = ''browser'', toolLabel = ''browser'', description = ''Control web browser'',
      sectionId = ''ui'', profiles = [], includeInOpenClawGroup = Some True\<rparr>,
     \<lparr>toolId = ''canvas'', toolLabel = ''canvas'', description = ''Control canvases'',
      sectionId = ''ui'', profiles = [], includeInOpenClawGroup = Some True\<rparr>,
     \<lparr>toolId = ''message'', toolLabel = ''message'', description = ''Send messages'',
      sectionId = ''messaging'', profiles = [''messaging''], includeInOpenClawGroup = Some True\<rparr>,
     \<lparr>toolId = ''cron'', toolLabel = ''cron'', description = ''Schedule tasks'',
      sectionId = ''automation'', profiles = [''coding''], includeInOpenClawGroup = Some True\<rparr>,
     \<lparr>toolId = ''gateway'', toolLabel = ''gateway'', description = ''Gateway control'',
      sectionId = ''automation'', profiles = [], includeInOpenClawGroup = Some True\<rparr>,
     \<lparr>toolId = ''nodes'', toolLabel = ''nodes'', description = ''Nodes + devices'',
      sectionId = ''nodes'', profiles = [], includeInOpenClawGroup = Some True\<rparr>,
     \<lparr>toolId = ''agents_list'', toolLabel = ''agents_list'', description = ''List agents'',
      sectionId = ''agents'', profiles = [], includeInOpenClawGroup = Some True\<rparr>,
     \<lparr>toolId = ''image'', toolLabel = ''image'', description = ''Image understanding'',
      sectionId = ''media'', profiles = [''coding''], includeInOpenClawGroup = Some True\<rparr>,
     \<lparr>toolId = ''tts'', toolLabel = ''tts'', description = ''Text-to-speech conversion'',
      sectionId = ''media'', profiles = [], includeInOpenClawGroup = Some True\<rparr>]"

definition listCoreToolIdsForProfile :: "ToolProfileId \<Rightarrow> string list" where
  "listCoreToolIdsForProfile profile =
     map toolId (filter (\<lambda>tool. profile \<in> set (profiles tool)) CORE_TOOL_DEFINITIONS)"

definition CORE_TOOL_PROFILES :: "string \<Rightarrow> ToolProfilePolicy option" where
  \<comment> \<open>\<^verbatim>\<open>CORE_TOOL_PROFILES[key]\<close>. The object is a plain literal, so a key that is not one
      of the four own properties still finds the members of \<^verbatim>\<open>Object.prototype\<close>: a
      function or object, truthy, whose \<^verbatim>\<open>allow\<close> and \<^verbatim>\<open>deny\<close> are undefined.\<close>
  "CORE_TOOL_PROFILES key =
     (if key = ''minimal''
      then Some \<lparr>allow = Some (listCoreToolIdsForProfile ''minimal''), deny = None\<rparr>
      else if key = ''coding''
      then Some \<lparr>allow = Some (listCoreToolIdsForProfile ''coding''), deny = None\<rparr>
      else if key = ''messaging''
      then Some \<lparr>allow = Some (listCoreToolIdsForProfile ''messaging''), deny = None\<rparr>
      else if key = ''full'' then Some \<lparr>allow = None, deny = None\<rparr>
      else (case Object_prototype_lookup key of
              Some inherited \<Rightarrow> Some \<lparr>allow = None, deny = None\<rparr>
            | None \<Rightarrow> None))"

text \<open>
  A \<^verbatim>\<open>Map\<close>, and an object built from its entries, keeps its keys in insertion order: an
  association list in which \<^verbatim>\<open>set\<close> replaces the value of a key that is there and appends
  a new key otherwise. \<open>map_of\<close> reads it.
\<close>

definition Map_set :: "'k \<Rightarrow> 'v \<Rightarrow> ('k \<times> 'v) list \<Rightarrow> ('k \<times> 'v) list" where
  "Map_set k v m =
     (if k \<in> fst ` set m then map (\<lambda>(k', v'). if k' = k then (k', v) else (k', v')) m
      else m @ [(k, v)])"

definition buildCoreToolGroupMap :: "(string \<times> string list) list" where
  "buildCoreToolGroupMap =
     (let sectionToolMap =
            fold (\<lambda>tool m.
                    let groupId = ''group:'' @ sectionId tool;
                        list = (case map_of m groupId of None \<Rightarrow> [] | Some l \<Rightarrow> l)
                    in Map_set groupId (list @ [toolId tool]) m)
                 CORE_TOOL_DEFINITIONS [];
          openclawTools =
            map toolId (filter (\<lambda>tool. includeInOpenClawGroup tool = Some True)
                               CORE_TOOL_DEFINITIONS)
      in fold (\<lambda>(groupId, members) obj. Map_set groupId members obj)
              sectionToolMap [(''group:openclaw'', openclawTools)])"

definition CORE_TOOL_GROUPS :: "(string \<times> string list) list" where
  "CORE_TOOL_GROUPS = buildCoreToolGroupMap"

definition resolveCoreToolProfilePolicy :: "string option \<Rightarrow> ToolProfilePolicy option" where
  "resolveCoreToolProfilePolicy profile =
     (case profile of
        None \<Rightarrow> None
      | Some p \<Rightarrow>
          if p = [] then None
          else (case CORE_TOOL_PROFILES p of
                  None \<Rightarrow> None
                | Some resolved \<Rightarrow>
                    if allow resolved = None \<and> deny resolved = None then None
                    else Some \<lparr>allow = allow resolved, deny = deny resolved\<rparr>))"

section \<open>Named profiles (tool-catalog)\<close>

record ResolvedProfileTrace =
  resolvedFrom :: "string list"
  effectiveAllow :: "string list"
  effectiveDeny :: "string list"

record NamedProfileInput = ToolProfilePolicy +
  "extends" :: "string option"

definition MAX_EXTENDS_DEPTH :: nat where
  "MAX_EXTENDS_DEPTH = 5"

text \<open>
  A \<^verbatim>\<open>Set\<close> keeps its members in insertion order, so it is a duplicate-free list:
  \<^verbatim>\<open>new Set(xs)\<close> adds the elements of \<^verbatim>\<open>xs\<close> one by one and \<^verbatim>\<open>[...s]\<close> reads
  the list back.
\<close>

definition Set_add :: "'a \<Rightarrow> 'a list \<Rightarrow> 'a list" where
  "Set_add x s = (if x \<in> set s then s else s @ [x])"

definition new_Set :: "'a list \<Rightarrow> 'a list" where
  "new_Set xs = fold Set_add xs []"

definition Set_has :: "'a list \<Rightarrow> 'a \<Rightarrow> bool" where
  "Set_has s x = (x \<in> set s)"

definition orEmpty :: "'a list option \<Rightarrow> 'a list" where
  \<comment> \<open>what \<^verbatim>\<open>if (l) acc.push(...l)\<close> appends: nothing for an absent list.\<close>
  "orEmpty l = (case l of None \<Rightarrow> [] | Some xs \<Rightarrow> xs)"

text \<open>
  The \<^verbatim>\<open>while (current)\<close> loop of \<^verbatim>\<open>resolveNamedToolProfilePolicy\<close>. Its state is
  \<^verbatim>\<open>current\<close>, \<^verbatim>\<open>chain\<close>, \<^verbatim>\<open>visited\<close>, \<^verbatim>\<open>allAllow\<close> and \<^verbatim>\<open>allDeny\<close>;
  it returns the last three lists as they stand when the loop is left.
  \<^verbatim>\<open>namedProfiles[name]\<close> is a map lookup: a member inherited from
  \<^verbatim>\<open>Object.prototype\<close> has no \<^verbatim>\<open>allow\<close>, \<^verbatim>\<open>deny\<close> or \<^verbatim>\<open>extends\<close>, so the
  function returns undefined for it as it does for a missing key, and as a parent it is
  never read, because \<^verbatim>\<open>CORE_TOOL_PROFILES\<close> answers first.
\<close>

function resolveLoop ::
  "(string \<rightharpoonup> NamedProfileInput) \<Rightarrow> NamedProfileInput option \<Rightarrow> string list \<Rightarrow> string set
     \<Rightarrow> string list \<Rightarrow> string list \<Rightarrow> string list \<times> string list \<times> string list" where
  "resolveLoop namedProfiles None chain visited allAllow allDeny = (chain, allAllow, allDeny)"
| "resolveLoop namedProfiles (Some current) chain visited allAllow allDeny =
     (let allAllow' = allAllow @ orEmpty (allow current);
          allDeny' = allDeny @ orEmpty (deny current)
      in case extends current of
           None \<Rightarrow> (chain, allAllow', allDeny')
         | Some parentName \<Rightarrow>
             if parentName = [] then (chain, allAllow', allDeny')
             else if parentName \<in> visited then (chain, allAllow', allDeny')
             else if length chain \<ge> MAX_EXTENDS_DEPTH then (chain, allAllow', allDeny')
             else (case CORE_TOOL_PROFILES parentName of
                     Some builtIn \<Rightarrow>
                       (chain @ [parentName],
                        allAllow' @ orEmpty (allow builtIn),
                        allDeny' @ orEmpty (deny builtIn))
                   | None \<Rightarrow>
                       resolveLoop namedProfiles (namedProfiles parentName)
                         (chain @ [parentName]) (insert parentName visited)
                         allAllow' allDeny'))"
  by pat_completeness auto
termination
  by (relation "measure (\<lambda>(namedProfiles, current, chain, visited, allAllow, allDeny).
                           MAX_EXTENDS_DEPTH - length chain)") auto

declare resolveLoop.simps [simp del]

definition resolveNamedToolProfilePolicy ::
  "string \<Rightarrow> (string \<rightharpoonup> NamedProfileInput)
     \<Rightarrow> (ToolProfilePolicy \<times> ResolvedProfileTrace) option" where
  "resolveNamedToolProfilePolicy profileName namedProfiles =
     (case namedProfiles profileName of
        None \<Rightarrow> None
      | Some profile \<Rightarrow>
          (case resolveLoop namedProfiles (Some profile) [profileName] {profileName} [] [] of
             (chain, allAllow, allDeny) \<Rightarrow>
               let denySet = new_Set allDeny;
                   effAllow = (if length allAllow > 0
                               then filter (\<lambda>t. \<not> Set_has denySet t) (new_Set allAllow)
                               else []);
                   effDeny = new_Set allDeny;
                   policy = \<lparr>allow = (if length effAllow > 0 then Some effAllow else None),
                             deny = (if length effDeny > 0 then Some effDeny else None)\<rparr>
               in if allow policy = None \<and> deny policy = None then None
                  else Some (policy,
                             \<lparr>resolvedFrom = chain,
                              effectiveAllow = effAllow,
                              effectiveDeny = effDeny\<rparr>)))"

definition resolveToolProfilePolicy ::
  "string option \<Rightarrow> (string \<rightharpoonup> NamedProfileInput) option \<Rightarrow> ToolProfilePolicy option" where
  "resolveToolProfilePolicy profile namedProfiles =
     (case resolveCoreToolProfilePolicy profile of
        Some coreResult \<Rightarrow> Some coreResult
      | None \<Rightarrow>
          (case (profile, namedProfiles) of
             (Some p, Some np) \<Rightarrow>
               if p = [] then None
               else (case resolveNamedToolProfilePolicy p np of
                       Some namedResult \<Rightarrow> Some (fst namedResult)
                     | None \<Rightarrow> None)
           | _ \<Rightarrow> None))"

text \<open>
  What the walk gathers, named for the statements below: the chain, and the two accumulators
  as they stand after the loop. A member of the chain other than the first contributes the
  built-in policy when \<^verbatim>\<open>CORE_TOOL_PROFILES\<close> knows its name, the named profile otherwise.
\<close>

definition curAllow :: "NamedProfileInput option \<Rightarrow> string list" where
  "curAllow cur = (case cur of None \<Rightarrow> [] | Some c \<Rightarrow> orEmpty (allow c))"

definition curDeny :: "NamedProfileInput option \<Rightarrow> string list" where
  "curDeny cur = (case cur of None \<Rightarrow> [] | Some c \<Rightarrow> orEmpty (deny c))"

definition memberAllow :: "(string \<rightharpoonup> NamedProfileInput) \<Rightarrow> string \<Rightarrow> string list" where
  "memberAllow namedProfiles nm =
     (case CORE_TOOL_PROFILES nm of
        Some builtIn \<Rightarrow> orEmpty (allow builtIn)
      | None \<Rightarrow> curAllow (namedProfiles nm))"

definition memberDeny :: "(string \<rightharpoonup> NamedProfileInput) \<Rightarrow> string \<Rightarrow> string list" where
  "memberDeny namedProfiles nm =
     (case CORE_TOOL_PROFILES nm of
        Some builtIn \<Rightarrow> orEmpty (deny builtIn)
      | None \<Rightarrow> curDeny (namedProfiles nm))"

definition resolvedChain :: "(string \<rightharpoonup> NamedProfileInput) \<Rightarrow> string \<Rightarrow> string list" where
  "resolvedChain namedProfiles nm =
     fst (resolveLoop namedProfiles (namedProfiles nm) [nm] {nm} [] [])"

definition gatheredAllow :: "(string \<rightharpoonup> NamedProfileInput) \<Rightarrow> string \<Rightarrow> string list" where
  "gatheredAllow namedProfiles nm =
     fst (snd (resolveLoop namedProfiles (namedProfiles nm) [nm] {nm} [] []))"

definition gatheredDeny :: "(string \<rightharpoonup> NamedProfileInput) \<Rightarrow> string \<Rightarrow> string list" where
  "gatheredDeny namedProfiles nm =
     snd (snd (resolveLoop namedProfiles (namedProfiles nm) [nm] {nm} [] []))"

text \<open>
  The shape of a chain: every member but the last is a named profile whose \<^verbatim>\<open>extends\<close> is
  the next member, and no member strictly between the first and the last is a built-in
  profile. And why a chain ends where it does: its last member is a built-in profile that the
  walk moved to, or it is not in the map, or it has no (or an empty) \<^verbatim>\<open>extends\<close>, or its
  \<^verbatim>\<open>extends\<close> names a member of the chain, or the chain has reached the depth limit.
\<close>

fun extendsPath :: "(string \<rightharpoonup> NamedProfileInput) \<Rightarrow> string list \<Rightarrow> bool" where
  "extendsPath np (x # y # rest) =
     ((case np x of None \<Rightarrow> False | Some cur \<Rightarrow> extends cur = Some y)
      \<and> (rest = [] \<or> CORE_TOOL_PROFILES y = None)
      \<and> extendsPath np (y # rest))"
| "extendsPath np rest = True"

definition stoppedAt :: "(string \<rightharpoonup> NamedProfileInput) \<Rightarrow> string list \<Rightarrow> bool" where
  "stoppedAt np chain =
     (let l = last chain
      in (1 < length chain \<and> CORE_TOOL_PROFILES l \<noteq> None)
         \<or> (case np l of
               None \<Rightarrow> True
             | Some cur \<Rightarrow>
                 (case extends cur of
                    None \<Rightarrow> True
                  | Some p \<Rightarrow> p = [] \<or> p \<in> set chain \<or> MAX_EXTENDS_DEPTH \<le> length chain)))"

section \<open>Policy helpers of the pipeline (tool-policy, pi-tools.policy)\<close>

text \<open>
  The pipeline imports \<^verbatim>\<open>buildPluginToolGroups\<close>, \<^verbatim>\<open>expandPolicyWithPluginGroups\<close>
  and \<^verbatim>\<open>stripPluginOnlyAllowlist\<close> from tool-policy and \<^verbatim>\<open>filterToolsByPolicy\<close> from
  pi-tools.policy. The code of these four helpers is missing; each is written here after
  sections 4.4 to 4.6 of the specification.
\<close>

record AnyAgentTool =
  name :: string

type_synonym ToolPolicyLike = ToolProfilePolicy

type_synonym PluginToolGroups = "(string \<times> string list) list"

definition pluginGroupsAdd :: "string \<Rightarrow> string \<Rightarrow> PluginToolGroups \<Rightarrow> PluginToolGroups" where
  \<comment> \<open>Modelled from the spec: part of the missing \<^verbatim>\<open>buildPluginToolGroups\<close>; one more
      tool name under a group key.\<close>
  "pluginGroupsAdd key toolName groups =
     Map_set key (orEmpty (map_of groups key) @ [toolName]) groups"

definition buildPluginToolGroups ::
  "'a AnyAgentTool_scheme list \<Rightarrow> ('a AnyAgentTool_scheme \<Rightarrow> string option) \<Rightarrow> PluginToolGroups" where
  \<comment> \<open>Modelled from the spec: \<^verbatim>\<open>buildPluginToolGroups\<close> of tool-policy is missing. Section 4.4:
      a map from \<^verbatim>\<open>group:plugin:<pluginId>\<close> to the names of the tools whose metadata
      yields that plugin id; a tool without a plugin id contributes nothing.\<close>
  "buildPluginToolGroups tools toolMeta =
     fold (\<lambda>tool groups.
             case toolMeta tool of
               None \<Rightarrow> groups
             | Some pluginId \<Rightarrow> pluginGroupsAdd (''group:plugin:'' @ pluginId) (name tool) groups)
          tools []"

text \<open>
  Policy entries are compared in canonical form. Section 4.6 tests the normalized name of a
  tool against the entries of a policy, and section 3 states that after expansion every entry
  of a policy is a canonical tool id; so the expansion normalizes the entries it is given
  (\<^verbatim>\<open>normalize_list\<close> of section 4.1, empty results dropped) and the members it puts
  in their place, and an entry refers to a group when it is the canonical form of the group
  key. An expanded list holds the values \<^verbatim>\<open>normalizeToolName\<close> returns, whatever they are.
\<close>

record ExpandedPolicy =
  expandedAllow :: "js_value list option"
  expandedDeny :: "js_value list option"

definition groupMembers :: "PluginToolGroups \<Rightarrow> js_value \<Rightarrow> string list option" where
  \<comment> \<open>Modelled from the spec: the known group keys of section 4.4 (a built-in section group,
      the openclaw group, or a plugin group) and their members, for a normalized entry.\<close>
  "groupMembers pluginGroups entry =
     (case (case entry of Str key \<Rightarrow> map_of CORE_TOOL_GROUPS key | _ \<Rightarrow> None) of
        Some members \<Rightarrow> Some members
      | None \<Rightarrow>
          map_of (map (\<lambda>(key, members). (normalizeToolName key, members)) pluginGroups) entry)"

definition expandEntries :: "PluginToolGroups \<Rightarrow> string list \<Rightarrow> js_value list" where
  \<comment> \<open>Modelled from the spec: section 4.4, an entry equal to a known group key is replaced by
      its members, any other entry stays in place; order is kept and duplicates are removed.
      Entries and members are in canonical form (sections 3 and 4.1).\<close>
  "expandEntries pluginGroups entries =
     new_Set (concat (map (\<lambda>entry. case groupMembers pluginGroups entry of
                                      Some members \<Rightarrow> map normalizeToolName members
                                    | None \<Rightarrow> [entry])
                          (normalizeToolList (Some entries))))"

definition expandPolicyWithPluginGroups ::
  "ToolPolicyLike option \<Rightarrow> PluginToolGroups \<Rightarrow> ExpandedPolicy option" where
  \<comment> \<open>Modelled from the spec: \<^verbatim>\<open>expandPolicyWithPluginGroups\<close> of tool-policy is missing.
      Section 4.4, \<^verbatim>\<open>expand(policy, plugin_groups)\<close>, on the allow and the deny list; an
      absent policy stays absent.\<close>
  "expandPolicyWithPluginGroups policy pluginGroups =
     (case policy of
        None \<Rightarrow> None
      | Some p \<Rightarrow> Some \<lparr>expandedAllow = map_option (expandEntries pluginGroups) (allow p),
                        expandedDeny = map_option (expandEntries pluginGroups) (deny p)\<rparr>)"

record AllowlistResolution =
  resolvedPolicy :: ToolPolicyLike
  unknownAllowlist :: "string list"
  strippedAllowlist :: bool

definition stripPluginOnlyAllowlist ::
  "ToolPolicyLike \<Rightarrow> PluginToolGroups \<Rightarrow> js_value list \<Rightarrow> AllowlistResolution" where
  \<comment> \<open>Modelled from the spec: \<^verbatim>\<open>stripPluginOnlyAllowlist\<close> of tool-policy is missing.
      Section 4.5, steps 1 to 6, on the entries with a non-empty canonical form. An entry that
      is no recognized core entry can only match a plugin tool, loaded or not yet loaded, so it
      counts as a plugin-only reference: this is the reading under which the allow list of the
      section's own example, of scenario S3 and of scenario S4 is dropped: an allow list with
      an entry is dropped exactly when no entry of it is a recognized core entry. The deny list
      is never touched.\<close>
  "stripPluginOnlyAllowlist policy pluginGroups coreToolNames =
     (case allow policy of
        None \<Rightarrow> \<lparr>resolvedPolicy = policy, unknownAllowlist = [], strippedAllowlist = False\<rparr>
      | Some listed \<Rightarrow>
          let entries = filter (\<lambda>entry. truthy (normalizeToolName entry)) listed;
              isCoreTool = (\<lambda>entry. Set_has coreToolNames (normalizeToolName entry));
              isCoreGroup =
                (\<lambda>entry. case normalizeToolName entry of
                            Str key \<Rightarrow> map_of CORE_TOOL_GROUPS key \<noteq> None
                          | _ \<Rightarrow> False);
              isPluginGroup =
                (\<lambda>entry. \<not> isCoreGroup entry
                          \<and> groupMembers pluginGroups (normalizeToolName entry) \<noteq> None);
              recognizedCoreEntry = list_ex (\<lambda>entry. isCoreTool entry \<or> isCoreGroup entry) entries;
              unknownEntries =
                filter (\<lambda>entry. \<not> isCoreTool entry \<and> \<not> isCoreGroup entry \<and> \<not> isPluginGroup entry)
                       entries;
              stripped = (\<not> recognizedCoreEntry \<and> entries \<noteq> [])
          in \<lparr>resolvedPolicy = (if stripped then policy\<lparr>allow := None\<rparr> else policy),
              unknownAllowlist = unknownEntries,
              strippedAllowlist = stripped\<rparr>)"

definition policyKeeps :: "ExpandedPolicy \<Rightarrow> 'a AnyAgentTool_scheme \<Rightarrow> bool" where
  \<comment> \<open>Modelled from the spec: section 4.6, with \<^verbatim>\<open>n = normalize(tool.name)\<close> a tool is kept
      iff allow is absent or holds \<^verbatim>\<open>n\<close>, and deny does not hold \<^verbatim>\<open>n\<close>.\<close>
  "policyKeeps policy tool =
     (let n = normalizeToolName (name tool)
      in (case expandedAllow policy of None \<Rightarrow> True | Some entries \<Rightarrow> n \<in> set entries) \<and>
         (case expandedDeny policy of None \<Rightarrow> True | Some entries \<Rightarrow> n \<notin> set entries))"

definition filterToolsByPolicy ::
  "'a AnyAgentTool_scheme list \<Rightarrow> ExpandedPolicy \<Rightarrow> 'a AnyAgentTool_scheme list" where
  \<comment> \<open>Modelled from the spec: \<^verbatim>\<open>filterToolsByPolicy\<close> of pi-tools.policy is missing.
      Section 4.6: the tools the policy keeps, in their input order.\<close>
  "filterToolsByPolicy tools policy = filter (policyKeeps policy) tools"

section \<open>Pipeline executor (tool-policy-pipeline.ts)\<close>

record ToolPolicyPipelineStep =
  policy :: "ToolPolicyLike option"
  label :: string
  stripPluginOnlyAllowlist_opt :: "bool option"

record NamedProfileContext =
  profileName :: string
  headlineTools :: "string list option"

fun join :: "string \<Rightarrow> string list \<Rightarrow> string" where
  "join sep [] = []"
| "join sep [x] = x"
| "join sep (x # y # ys) = x @ sep @ join sep (y # ys)"

text \<open>The four messages handed to \<^verbatim>\<open>params.warn\<close>.\<close>

definition unknownEntriesWarning :: "string \<Rightarrow> string list \<Rightarrow> bool \<Rightarrow> string" where
  \<open>unknownEntriesWarning stepLabel unknown stripped =
     (let entries = join '', '' unknown;
          suffix = (if stripped
                    then ''Ignoring allowlist so core tools remain available. Use tools.alsoAllow for additive plugin tool enablement.''
                    else ''These entries won't match any tool unless the plugin is enabled.'')
      in ''tools: '' @ stepLabel @ '' allowlist contains unknown entries ('' @ entries @ ''). '' @ suffix)\<close>

definition zeroToolsWarning :: "string \<Rightarrow> string" where
  \<open>zeroToolsWarning pn =
     ''Named profile "'' @ pn @ ''" resulted in zero tools after policy filtering.''\<close>

definition onlySessionStatusWarning :: "string \<Rightarrow> string" where
  \<open>onlySessionStatusWarning pn =
     ''Named profile "'' @ pn @ ''" resulted in only session_status after policy filtering.''\<close>

definition headlineLossWarning :: "string \<Rightarrow> string list \<Rightarrow> string list \<Rightarrow> string" where
  \<open>headlineLossWarning pn headline remainingNames =
     (let removedList = join '', '' headline;
          remainingList = join '', '' remainingNames
      in ''Named profile "'' @ pn @ ''" requested headline tools ['' @ removedList
         @ ''], but none remain after filtering. Effective tools: '' @ remainingList @ ''.'')\<close>

text \<open>
  One turn of the \<^verbatim>\<open>for (const step of params.steps)\<close> loop. The state is the working
  list \<^verbatim>\<open>filtered\<close> and the messages passed to \<^verbatim>\<open>params.warn\<close> so far.
\<close>

definition applyStep ::
  "js_value list \<Rightarrow> PluginToolGroups \<Rightarrow> ToolPolicyPipelineStep
     \<Rightarrow> 'a AnyAgentTool_scheme list \<times> string list \<Rightarrow> 'a AnyAgentTool_scheme list \<times> string list" where
  "applyStep coreToolNames pluginGroups step state =
     (case state of (filtered, warnings) \<Rightarrow>
        (case policy step of
           None \<Rightarrow> (filtered, warnings)
         | Some stepPolicy \<Rightarrow>
             let (policy', warnings') =
                   (if stripPluginOnlyAllowlist_opt step = Some True
                    then let resolved = stripPluginOnlyAllowlist stepPolicy pluginGroups coreToolNames
                         in (resolvedPolicy resolved,
                             if length (unknownAllowlist resolved) > 0
                             then warnings @ [unknownEntriesWarning (label step)
                                                (unknownAllowlist resolved) (strippedAllowlist resolved)]
                             else warnings)
                    else (stepPolicy, warnings));
                 expanded = expandPolicyWithPluginGroups (Some policy') pluginGroups
             in (case expanded of
                   Some e \<Rightarrow> (filterToolsByPolicy filtered e, warnings')
                 | None \<Rightarrow> (filtered, warnings'))))"

definition postPipelineWarnings ::
  "NamedProfileContext \<Rightarrow> 'a AnyAgentTool_scheme list \<Rightarrow> string list" where
  "postPipelineWarnings ctx filtered =
     (let remaining = new_Set (map (\<lambda>t. normalizeToolName (name t)) filtered);
          headline = orEmpty (headlineTools ctx)
      in if length filtered = 0 then [zeroToolsWarning (profileName ctx)]
         else if length filtered = 1 \<and> Set_has remaining (Str ''session_status'')
         then [onlySessionStatusWarning (profileName ctx)]
         else if length headline > 0
                 \<and> list_all (\<lambda>t. \<not> Set_has remaining (normalizeToolName t)) headline
         then [headlineLossWarning (profileName ctx) headline (map name filtered)]
         else [])"

definition applyToolPolicyPipeline ::
  "'a AnyAgentTool_scheme list \<Rightarrow> ('a AnyAgentTool_scheme \<Rightarrow> string option)
     \<Rightarrow> ToolPolicyPipelineStep list \<Rightarrow> NamedProfileContext option
     \<Rightarrow> 'a AnyAgentTool_scheme list \<times> string list" where
  \<comment> \<open>The result is the returned list together with the messages passed to \<^verbatim>\<open>warn\<close>, in
      the order of the calls.\<close>
  "applyToolPolicyPipeline tools toolMeta steps namedProfileContext =
     (let coreToolNames =
            new_Set (filter truthy
                       (map (\<lambda>tool. normalizeToolName (name tool))
                            (filter (\<lambda>tool. toolMeta tool = None) tools)));
          pluginGroups = buildPluginToolGroups tools toolMeta
      in case fold (applyStep coreToolNames pluginGroups) steps (tools, []) of
           (filtered, warnings) \<Rightarrow>
             (filtered,
              warnings @ (case namedProfileContext of
                            None \<Rightarrow> []
                          | Some ctx \<Rightarrow> postPipelineWarnings ctx filtered)))"

definition denyNames ::
  "PluginToolGroups \<Rightarrow> ToolPolicyPipelineStep \<Rightarrow> 'a AnyAgentTool_scheme \<Rightarrow> bool" where
  \<comment> \<open>The deny list of the step names the tool after normalization: the list, with its
      entries normalized and its group references expanded, holds the normalized name of the
      tool.\<close>
  "denyNames pluginGroups step tool =
     (case policy step of
        None \<Rightarrow> False
      | Some p \<Rightarrow>
          (case deny p of
             None \<Rightarrow> False
           | Some entries \<Rightarrow>
               normalizeToolName (name tool) \<in> set (expandEntries pluginGroups entries)))"

text \<open>
  Named for the statements below: the policy a step filters with, after the optional allowlist
  stripping and the group expansion; and the two families of messages, told apart by how they
  begin.
\<close>

definition stepPolicy ::
  "js_value list \<Rightarrow> PluginToolGroups \<Rightarrow> ToolPolicyPipelineStep \<Rightarrow> ExpandedPolicy option" where
  "stepPolicy coreToolNames pluginGroups step =
     (case policy step of
        None \<Rightarrow> None
      | Some p \<Rightarrow>
          expandPolicyWithPluginGroups
            (Some (if stripPluginOnlyAllowlist_opt step = Some True
                   then resolvedPolicy (stripPluginOnlyAllowlist p pluginGroups coreToolNames)
                   else p))
            pluginGroups)"

definition isStepWarning :: "string \<Rightarrow> bool" where
  "isStepWarning w = (take 7 w = ''tools: '')"

definition isPostFilterWarning :: "string \<Rightarrow> bool" where
  \<open>isPostFilterWarning w = (take 15 w = ''Named profile "'')\<close>

section \<open>Session overrides and the reset command (commands-tools-reset.ts)\<close>

datatype PromptListing = ListingFull | ListingNames | ListingOff
  \<comment> \<open>\<^verbatim>\<open>"full" | "names" | "off"\<close>, each a non-empty string and so truthy.\<close>

text \<open>
  The four override fields of a session entry; an absent field (undefined or null) is
  \<open>None\<close>. The other fields of an entry are copied unchanged by the handler and are left out.
\<close>

record SessionEntry =
  toolsProfileOverride :: "string option"
  toolsAllowOverride :: "string list option"
  toolsDenyOverride :: "string list option"
  toolsPromptListingOverride :: "PromptListing option"

type_synonym SessionStore = "string \<Rightarrow> (string \<rightharpoonup> SessionEntry)"
  \<comment> \<open>store path, then session key\<close>

definition emptySessionEntry :: SessionEntry where
  "emptySessionEntry =
     \<lparr>toolsProfileOverride = None, toolsAllowOverride = None,
      toolsDenyOverride = None, toolsPromptListingOverride = None\<rparr>"

definition updateSessionStoreEntry ::
  "string \<Rightarrow> string \<Rightarrow> (SessionEntry \<Rightarrow> SessionEntry) \<Rightarrow> SessionStore \<Rightarrow> SessionStore" where
  \<comment> \<open>Modelled from the spec: \<^verbatim>\<open>updateSessionStoreEntry\<close> of config/sessions/store is
      missing. Section 4.9, \<^verbatim>\<open>update(store_path, session_key, mutator)\<close>: load the current
      record or construct an empty one, apply the mutator, write the result back.\<close>
  "updateSessionStoreEntry path key update store =
     store(path := (store path)(key \<mapsto>
       update (case store path key of None \<Rightarrow> emptySessionEntry | Some existing \<Rightarrow> existing)))"

record CommandContext =
  commandBodyNormalized :: string
  isAuthorizedSender :: bool

record HandlerParams =
  command :: CommandContext
  storePath :: "string option"
  sessionKey :: "string option"
  sessionEntry :: "SessionEntry option"

record CommandHandlerResult =
  reply :: "string option"
  shouldContinue :: bool

definition falsyString :: "string option \<Rightarrow> bool" where
  \<comment> \<open>\<^verbatim>\<open>!s\<close> for a string that may be absent: undefined, null and the empty string.\<close>
  "falsyString s = (case s of None \<Rightarrow> True | Some v \<Rightarrow> v = [])"

definition hadOverrides :: "SessionEntry option \<Rightarrow> bool" where
  \<comment> \<open>\<^verbatim>\<open>Boolean(entry?.toolsProfileOverride || entry?.toolsAllowOverride?.length ||
      entry?.toolsDenyOverride?.length || entry?.toolsPromptListingOverride)\<close>\<close>
  "hadOverrides entry =
     (case entry of
        None \<Rightarrow> False
      | Some e \<Rightarrow>
          \<not> falsyString (toolsProfileOverride e)
          \<or> (case toolsAllowOverride e of None \<Rightarrow> False | Some l \<Rightarrow> length l \<noteq> 0)
          \<or> (case toolsDenyOverride e of None \<Rightarrow> False | Some l \<Rightarrow> length l \<noteq> 0)
          \<or> toolsPromptListingOverride e \<noteq> None)"

definition clearOverrides :: "SessionEntry \<Rightarrow> SessionEntry" where
  \<comment> \<open>the four assignments of undefined, in the store update and on \<^verbatim>\<open>params.sessionEntry\<close>\<close>
  "clearOverrides existing =
     existing\<lparr>toolsProfileOverride := None, toolsAllowOverride := None,
              toolsDenyOverride := None, toolsPromptListingOverride := None\<rparr>"

text \<open>
  The handler mutates \<^verbatim>\<open>params.sessionEntry\<close> in place and writes the store, so the model
  returns the result (\<open>None\<close> for null) with the parameters and the store as they are after
  the call.
\<close>

definition handleToolsResetCommand ::
  "HandlerParams \<Rightarrow> bool \<Rightarrow> SessionStore
     \<Rightarrow> CommandHandlerResult option \<times> HandlerParams \<times> SessionStore" where
  "handleToolsResetCommand params allowTextCommands store =
     (if \<not> allowTextCommands then (None, params, store)
      else if commandBodyNormalized (command params) \<noteq> ''/tools:reset'' then (None, params, store)
      else if \<not> isAuthorizedSender (command params)
      then (Some \<lparr>reply = None, shouldContinue = False\<rparr>, params, store)
      else if falsyString (storePath params) \<or> falsyString (sessionKey params)
      then (Some \<lparr>reply = Some ''Cannot reset tool overrides: no active session.'',
                   shouldContinue = False\<rparr>, params, store)
      else
        let entry = sessionEntry params;
            had = hadOverrides entry;
            store' = updateSessionStoreEntry (the (storePath params)) (the (sessionKey params))
                       clearOverrides store;
            params' = params\<lparr>sessionEntry := map_option clearOverrides (sessionEntry params)\<rparr>;
            message = (if had then ''Tool overrides cleared. Tools restored to config baseline.''
                       else ''No tool overrides were active.'')
        in (Some \<lparr>reply = Some message, shouldContinue = False\<rparr>, params', store'))"

definition validReset :: "HandlerParams \<Rightarrow> bool" where
  \<comment> \<open>the \<^verbatim>\<open>/tools:reset\<close> command of an authorized sender in an active session\<close>
  "validReset params =
     (commandBodyNormalized (command params) = ''/tools:reset''
      \<and> isAuthorizedSender (command params)
      \<and> \<not> falsyString (storePath params) \<and> \<not> falsyString (sessionKey params))"

section \<open>Properties of the normalizer\<close>

lemma isWhiteSpace_lowerChar [simp]: "isWhiteSpace (lowerChar c) = isWhiteSpace c"
  by (auto simp: isWhiteSpace_def lowerChar_def Let_def)

lemma lowerChar_idem [simp]: "lowerChar (lowerChar c) = lowerChar c"
  by (auto simp: lowerChar_def Let_def)

lemma toLowerCase_idem [simp]: "toLowerCase (toLowerCase s) = toLowerCase s"
  by (simp add: toLowerCase_def)

lemma dropWhile_ws_map_lower:
  "dropWhile isWhiteSpace (map lowerChar s) = map lowerChar (dropWhile isWhiteSpace s)"
  by (induction s) auto

lemma trim_toLowerCase: "trim (toLowerCase s) = toLowerCase (trim s)"
  by (simp add: trim_def toLowerCase_def dropWhile_ws_map_lower rev_map)

lemma dropWhile_rev_keeps_head:
  assumes "ys = [] \<or> \<not> P (hd ys)"
  shows "dropWhile P (rev (dropWhile P (rev ys))) = rev (dropWhile P (rev ys))"
proof (cases ys)
  case Nil
  then show ?thesis by simp
next
  case (Cons y zs)
  with assms have ny: "\<not> P y" by simp
  have "dropWhile P (rev ys) = dropWhile P (rev zs) @ [y] \<or> dropWhile P (rev ys) = [y]"
    using Cons ny by (auto simp: dropWhile_append)
  then obtain us where "dropWhile P (rev ys) = us @ [y]" by auto
  then show ?thesis using ny by simp
qed

lemma trim_idem [simp]: "trim (trim s) = trim s"
proof -
  have "dropWhile isWhiteSpace s = [] \<or> \<not> isWhiteSpace (hd (dropWhile isWhiteSpace s))"
    using hd_dropWhile by blast
  then show ?thesis
    unfolding trim_def by (simp add: dropWhile_rev_keeps_head)
qed

lemma lowerChar_not_capital:
  "\<not> (65 \<le> (of_char (lowerChar c) :: nat) \<and> (of_char (lowerChar c) :: nat) \<le> 90)"
  by (auto simp: lowerChar_def Let_def)

lemma toLowerCase_no_capital:
  "c \<in> set (toLowerCase s) \<Longrightarrow> \<not> (65 \<le> (of_char c :: nat) \<and> (of_char c :: nat) \<le> 90)"
  using lowerChar_not_capital by (auto simp: toLowerCase_def)

text \<open>
  After lowercasing, only two keys can still reach a member of \<^verbatim>\<open>Object.prototype\<close>:
  the names of its methods all hold a capital letter.
\<close>

lemma Object_prototype_lookup_lower:
  "Object_prototype_lookup (toLowerCase s) =
     (if toLowerCase s = ''constructor'' then Some ObjectConstructor
      else if toLowerCase s = ''__proto__'' then Some ObjectPrototype else None)"
proof -
  have "toLowerCase s \<noteq> t"
    if "CHR ''O'' \<in> set t \<or> CHR ''P'' \<in> set t \<or> CHR ''L'' \<in> set t \<or> CHR ''S'' \<in> set t
        \<or> CHR ''G'' \<in> set t \<or> CHR ''I'' \<in> set t" for t
    using that toLowerCase_no_capital [of _ s] by fastforce
  then show ?thesis
    by (simp add: Object_prototype_lookup_def)
qed

lemma normalizeToolName_aliases:
  "normalizeToolName ''bash'' = Str ''exec''"
  "normalizeToolName ''apply-patch'' = Str ''apply_patch''"
  "normalizeToolName ''  BaSh  '' = Str ''exec''"
  by code_simp+

lemma normalizeToolName_trims_lowercases_then_aliases:
  "normalizeToolName x =
     (case TOOL_NAME_ALIASES (toLowerCase (trim x)) of
        Some v \<Rightarrow> v | None \<Rightarrow> Str (toLowerCase (trim x)))"
  by (simp add: normalizeToolName_def Let_def)

text \<open>
  Away from the two inherited keys the normalizer returns a string and is idempotent.
\<close>

lemma normalizeToolName_idempotent_on_own_keys:
  assumes "toLowerCase (trim x) \<noteq> ''constructor''" "toLowerCase (trim x) \<noteq> ''__proto__''"
  shows "normalizeToolName_value (normalizeToolName x) = Inr (normalizeToolName x)"
proof -
  let ?n = "toLowerCase (trim x)"
  have fixed: "toLowerCase (trim ?n) = ?n"
    by (simp add: trim_toLowerCase)
  have stable: "normalizeToolName ''exec'' = Str ''exec''"
    "normalizeToolName ''apply_patch'' = Str ''apply_patch''"
    by code_simp+
  show ?thesis
    using assms fixed stable
    by (auto simp: normalizeToolName_value_def normalizeToolName_def TOOL_NAME_ALIASES_def
        Object_prototype_lookup_lower Let_def)
qed

text \<open>
  Claim C6 (normalizer algebra: \<open>normalize (normalize x) = normalize x\<close> for every string
  \<open>x\<close>). At \<open>x = "constructor"\<close> the alias lookup \<^verbatim>\<open>TOOL_NAME_ALIASES[normalized]\<close> finds
  \<^verbatim>\<open>Object.prototype.constructor\<close>, which is not nullish, so \<^verbatim>\<open>normalizeToolName\<close>
  returns the function \<^verbatim>\<open>Object\<close> instead of a string, and normalizing that result
  throws a TypeError. The same happens at \<open>"__proto__"\<close>.
\<close>

theorem normalizeToolName_constructor_not_idempotent:
  "normalizeToolName ''constructor'' = ObjectConstructor
   \<and> normalizeToolName_value (normalizeToolName ''constructor'') = Inl TypeError
   \<and> normalizeToolName '' __PROTO__ '' = ObjectPrototype
   \<and> normalizeToolName_value (normalizeToolName '' __PROTO__ '') = Inl TypeError"
  by code_simp

section \<open>Properties of the built-in profiles\<close>

lemma listCoreToolIdsForProfile_values:
  "listCoreToolIdsForProfile ''minimal'' = [''session_status'']"
  "listCoreToolIdsForProfile ''messaging'' =
     [''sessions_list'', ''sessions_history'', ''sessions_send'', ''session_status'', ''message'']"
  "listCoreToolIdsForProfile ''coding'' =
     [''read'', ''write'', ''edit'', ''apply_patch'', ''exec'', ''process'', ''memory_search'',
      ''memory_get'', ''sessions_list'', ''sessions_history'', ''sessions_send'',
      ''sessions_spawn'', ''subagents'', ''session_status'', ''cron'', ''image'']"
  "listCoreToolIdsForProfile ''full'' = []"
  by code_simp+

text \<open>
  Claim C7 (built-in profile resolution). For \<open>minimal\<close>, \<open>coding\<close> and \<open>messaging\<close>,
  \<^verbatim>\<open>resolveCoreToolProfilePolicy\<close> returns the policy whose allow list is the ids of the
  catalog tools whose \<open>profiles\<close> hold the profile id, in catalog order, with no deny list.
  For \<open>full\<close>, for every other name (the empty string and the keys inherited from
  \<^verbatim>\<open>Object.prototype\<close> included) and for an absent name it returns undefined.
\<close>

theorem resolveCoreToolProfilePolicy_builtin:
  "(\<forall>p \<in> {''minimal'', ''coding'', ''messaging''}.
      resolveCoreToolProfilePolicy (Some p) =
        Some \<lparr>allow = Some (map toolId (filter (\<lambda>tool. p \<in> set (profiles tool))
                                                CORE_TOOL_DEFINITIONS)),
              deny = None\<rparr>)
   \<and> resolveCoreToolProfilePolicy (Some ''full'') = None
   \<and> (\<forall>p. p \<notin> {''minimal'', ''coding'', ''messaging''}
          \<longrightarrow> resolveCoreToolProfilePolicy (Some p) = None)
   \<and> resolveCoreToolProfilePolicy None = None"
  by (auto simp: resolveCoreToolProfilePolicy_def CORE_TOOL_PROFILES_def
      listCoreToolIdsForProfile_def split: option.splits)

theorem resolveCoreToolProfilePolicy_builtin_witness:
  "''minimal'' \<in> {''minimal'', ''coding'', ''messaging''}
   \<and> resolveCoreToolProfilePolicy (Some ''minimal'')
       = Some \<lparr>allow = Some [''session_status''], deny = None\<rparr>
   \<and> ''constructor'' \<notin> {''minimal'', ''coding'', ''messaging''}
   \<and> resolveCoreToolProfilePolicy (Some ''constructor'') = None"
proof -
  have members: "map toolId (filter (\<lambda>tool. ''minimal'' \<in> set (profiles tool))
                                     CORE_TOOL_DEFINITIONS) = [''session_status'']"
    by code_simp
  have "resolveCoreToolProfilePolicy (Some ''minimal'')
          = Some \<lparr>allow = Some [''session_status''], deny = None\<rparr>"
    using resolveCoreToolProfilePolicy_builtin members by simp
  moreover have "resolveCoreToolProfilePolicy (Some ''constructor'') = None"
    using resolveCoreToolProfilePolicy_builtin by simp
  ultimately show ?thesis by simp
qed

section \<open>Properties of named profile resolution\<close>

lemma set_fold_Set_add: "set (fold Set_add xs acc) = set acc \<union> set xs"
  by (induction xs arbitrary: acc) (auto simp: Set_add_def)

lemma distinct_fold_Set_add: "distinct acc \<Longrightarrow> distinct (fold Set_add xs acc)"
  by (induction xs arbitrary: acc) (auto simp: Set_add_def)

lemma set_new_Set [simp]: "set (new_Set xs) = set xs"
  by (simp add: new_Set_def set_fold_Set_add)

lemma distinct_new_Set [simp]: "distinct (new_Set xs)"
  by (simp add: new_Set_def distinct_fold_Set_add)

lemma new_Set_Nil_iff [simp]: "new_Set xs = [] \<longleftrightarrow> xs = []"
  by (metis set_new_Set set_empty)

lemma fold_Set_add_acc:
  "fold Set_add xs acc = acc @ filter (\<lambda>x. x \<notin> set acc) (new_Set xs)"
proof (induction xs arbitrary: acc)
  case Nil
  then show ?case by (simp add: new_Set_def)
next
  case (Cons x xs)
  have one: "Set_add x [] = [x]"
    by (simp add: Set_add_def)
  have head: "new_Set (x # xs) = x # filter (\<lambda>y. y \<noteq> x) (new_Set xs)"
    using Cons.IH [of "[x]"] by (simp add: new_Set_def one)
  show ?case
  proof (cases "x \<in> set acc")
    case True
    have "filter (\<lambda>y. y \<notin> set acc) (filter (\<lambda>y. y \<noteq> x) (new_Set xs))
            = filter (\<lambda>y. y \<notin> set acc) (new_Set xs)"
      using True by (auto intro: filter_cong)
    moreover have "Set_add x acc = acc"
      using True by (simp add: Set_add_def)
    ultimately show ?thesis
      using True Cons.IH [of acc] by (simp add: head)
  next
    case False
    have "filter (\<lambda>y. y \<notin> set (acc @ [x])) (new_Set xs)
            = filter (\<lambda>y. y \<notin> set acc) (filter (\<lambda>y. y \<noteq> x) (new_Set xs))"
      by (auto intro: filter_cong)
    moreover have "Set_add x acc = acc @ [x]"
      using False by (simp add: Set_add_def)
    ultimately show ?thesis
      using False Cons.IH [of "acc @ [x]"] by (simp add: head)
  qed
qed

text \<open>The first occurrence of each element stays, in order.\<close>

lemma new_Set_Cons: "new_Set (x # xs) = x # filter (\<lambda>y. y \<noteq> x) (new_Set xs)"
proof -
  have "Set_add x [] = [x]"
    by (simp add: Set_add_def)
  then show ?thesis
    using fold_Set_add_acc [of xs "[x]"] by (simp add: new_Set_def)
qed

lemma new_Set_Nil [simp]: "new_Set [] = []"
  by (simp add: new_Set_def)

lemma new_Set_distinct_id: "distinct xs \<Longrightarrow> new_Set xs = xs"
  by (induction xs) (auto simp: new_Set_Cons intro: filter_True)

lemma resolveLoop_shape:
  "\<exists>ext. resolveLoop np cur chain visited a d =
            (chain @ ext,
             a @ curAllow cur @ concat (map (memberAllow np) ext),
             d @ curDeny cur @ concat (map (memberDeny np) ext))
        \<and> length (chain @ ext) \<le> max (length chain) MAX_EXTENDS_DEPTH
        \<and> (visited = set chain \<and> distinct chain \<longrightarrow> distinct (chain @ ext))"
proof (induction np cur chain visited a d rule: resolveLoop.induct)
  case (1 np chain visited a d)
  show ?case by (simp add: resolveLoop.simps curAllow_def curDeny_def)
next
  case (2 np current chain visited a d)
  let ?a = "a @ orEmpty (allow current)" and ?d = "d @ orEmpty (deny current)"
  consider (stop) "extends current = None \<or> extends current = Some []
                   \<or> (\<exists>p. extends current = Some p \<and> (p \<in> visited \<or> length chain \<ge> MAX_EXTENDS_DEPTH))"
    | (builtin) p b where "extends current = Some p" "p \<noteq> []" "p \<notin> visited"
        "\<not> length chain \<ge> MAX_EXTENDS_DEPTH" "CORE_TOOL_PROFILES p = Some b"
    | (hop) p where "extends current = Some p" "p \<noteq> []" "p \<notin> visited"
        "\<not> length chain \<ge> MAX_EXTENDS_DEPTH" "CORE_TOOL_PROFILES p = None"
    by (cases "extends current") auto
  then show ?case
  proof cases
    case stop
    then have "resolveLoop np (Some current) chain visited a d = (chain, ?a, ?d)"
      by (auto simp: resolveLoop.simps Let_def)
    then show ?thesis
      by (intro exI [of _ "[]"]) (simp add: curAllow_def curDeny_def)
  next
    case builtin
    then have "resolveLoop np (Some current) chain visited a d =
        (chain @ [p], ?a @ orEmpty (allow b), ?d @ orEmpty (deny b))"
      by (simp add: resolveLoop.simps Let_def)
    then show ?thesis
      using builtin
      by (intro exI [of _ "[p]"]) (auto simp: curAllow_def curDeny_def memberAllow_def memberDeny_def)
  next
    case hop
    have eq: "resolveLoop np (Some current) chain visited a d =
        resolveLoop np (np p) (chain @ [p]) (insert p visited) ?a ?d"
      using hop by (simp add: resolveLoop.simps Let_def)
    from "2.IH" [OF refl refl hop(1) hop(2) hop(3) hop(4) hop(5)]
    obtain ext where ext: "resolveLoop np (np p) (chain @ [p]) (insert p visited) ?a ?d =
            ((chain @ [p]) @ ext,
             ?a @ curAllow (np p) @ concat (map (memberAllow np) ext),
             ?d @ curDeny (np p) @ concat (map (memberDeny np) ext))"
        and len: "length ((chain @ [p]) @ ext) \<le> max (length (chain @ [p])) MAX_EXTENDS_DEPTH"
        and dist: "insert p visited = set (chain @ [p]) \<and> distinct (chain @ [p])
                     \<longrightarrow> distinct ((chain @ [p]) @ ext)"
      by blast
    have member: "memberAllow np p = curAllow (np p)" "memberDeny np p = curDeny (np p)"
      using hop(5) by (simp_all add: memberAllow_def memberDeny_def)
    have cur: "curAllow (Some current) = orEmpty (allow current)"
      "curDeny (Some current) = orEmpty (deny current)"
      by (simp_all add: curAllow_def curDeny_def)
    have "length (chain @ p # ext) \<le> max (length chain) MAX_EXTENDS_DEPTH"
      using len hop(4) by simp
    moreover have "visited = set chain \<and> distinct chain \<longrightarrow> distinct (chain @ p # ext)"
      using dist hop(3) by auto
    ultimately show ?thesis
      unfolding eq ext
      by (intro exI [of _ "p # ext"]) (simp add: member cur)
  qed
qed

lemma resolveLoop_start:
  "\<exists>ext. resolveLoop np (np nm) [nm] {nm} [] [] =
            (nm # ext,
             curAllow (np nm) @ concat (map (memberAllow np) ext),
             curDeny (np nm) @ concat (map (memberDeny np) ext))
        \<and> length (nm # ext) \<le> MAX_EXTENDS_DEPTH
        \<and> distinct (nm # ext)"
  using resolveLoop_shape [of np "np nm" "[nm]" "{nm}" "[]" "[]"]
  by (auto simp: MAX_EXTENDS_DEPTH_def)

lemma resolvedChain_bounds:
  "length (resolvedChain np nm) \<le> MAX_EXTENDS_DEPTH"
  "distinct (resolvedChain np nm)"
  "resolvedChain np nm \<noteq> []"
  "hd (resolvedChain np nm) = nm"
  using resolveLoop_start [of np nm] by (auto simp: resolvedChain_def)

lemma gathered_along_chain:
  "gatheredAllow np nm = curAllow (np nm) @ concat (map (memberAllow np) (tl (resolvedChain np nm)))"
  "gatheredDeny np nm = curDeny (np nm) @ concat (map (memberDeny np) (tl (resolvedChain np nm)))"
  using resolveLoop_start [of np nm]
  by (auto simp: resolvedChain_def gatheredAllow_def gatheredDeny_def)

lemma resolveNamed_unfold:
  assumes "np nm = Some profile"
  shows "resolveNamedToolProfilePolicy nm np =
     (let effAllow = filter (\<lambda>t. t \<notin> set (gatheredDeny np nm)) (new_Set (gatheredAllow np nm));
          effDeny = new_Set (gatheredDeny np nm)
      in if effAllow = [] \<and> effDeny = [] then None
         else Some (\<lparr>allow = (if effAllow = [] then None else Some effAllow),
                     deny = (if effDeny = [] then None else Some effDeny)\<rparr>,
                    \<lparr>resolvedFrom = resolvedChain np nm,
                     effectiveAllow = effAllow,
                     effectiveDeny = effDeny\<rparr>))"
proof -
  obtain chain allAllow allDeny
    where loop: "resolveLoop np (Some profile) [nm] {nm} [] [] = (chain, allAllow, allDeny)"
    by (metis prod_cases3)
  have parts: "resolvedChain np nm = chain" "gatheredAllow np nm = allAllow"
    "gatheredDeny np nm = allDeny"
    using assms loop by (simp_all add: resolvedChain_def gatheredAllow_def gatheredDeny_def)
  have "allDeny \<noteq> []"
    if "allAllow \<noteq> []" "filter (\<lambda>t. t \<notin> set allDeny) (new_Set allAllow) = []"
  proof -
    from that(1) obtain x where "x \<in> set (new_Set allAllow)"
      by (cases allAllow) auto
    with that(2) have "x \<in> set allDeny"
      by (auto simp: filter_empty_conv)
    then show ?thesis by auto
  qed
  then show ?thesis
    unfolding parts
    using assms loop
    by (auto simp: resolveNamedToolProfilePolicy_def Let_def Set_has_def)
qed

text \<open>
  Claim C4 (named profile merge rule). For a profile name present in the map, the lists
  gathered by the walk are the allow (deny) list of the profile itself followed by the allow
  (deny) lists of the later members of the chain: the built-in policy for a member that
  \<^verbatim>\<open>CORE_TOOL_PROFILES\<close> knows, the named profile otherwise. The effective deny list is the
  deduplicated gathered deny list, the effective allow list is the deduplicated gathered allow
  list without the entries of the deny set, and the function returns undefined exactly when
  both are empty; otherwise it returns the policy (an empty list left out) and the trace.
\<close>

theorem resolveNamed_merge_rule:
  assumes "namedProfiles nm = Some profile"
  shows "gatheredAllow namedProfiles nm =
           orEmpty (allow profile)
           @ concat (map (memberAllow namedProfiles) (tl (resolvedChain namedProfiles nm)))
       \<and> gatheredDeny namedProfiles nm =
           orEmpty (deny profile)
           @ concat (map (memberDeny namedProfiles) (tl (resolvedChain namedProfiles nm)))
       \<and> resolveNamedToolProfilePolicy nm namedProfiles =
           (let effAllow = filter (\<lambda>t. t \<notin> set (gatheredDeny namedProfiles nm))
                                  (new_Set (gatheredAllow namedProfiles nm));
                effDeny = new_Set (gatheredDeny namedProfiles nm)
            in if effAllow = [] \<and> effDeny = [] then None
               else Some (\<lparr>allow = (if effAllow = [] then None else Some effAllow),
                           deny = (if effDeny = [] then None else Some effDeny)\<rparr>,
                          \<lparr>resolvedFrom = resolvedChain namedProfiles nm,
                           effectiveAllow = effAllow,
                           effectiveDeny = effDeny\<rparr>))
       \<and> distinct (new_Set (gatheredAllow namedProfiles nm))
       \<and> set (new_Set (gatheredAllow namedProfiles nm))
           = set (gatheredAllow namedProfiles nm)
       \<and> distinct (new_Set (gatheredDeny namedProfiles nm))
       \<and> set (new_Set (gatheredDeny namedProfiles nm))
           = set (gatheredDeny namedProfiles nm)"
  using assms gathered_along_chain [of namedProfiles nm]
    resolveNamed_unfold [of namedProfiles nm profile]
  by (simp add: curAllow_def curDeny_def)

theorem resolveNamed_merge_rule_witness:
  "[''base'' \<mapsto> \<lparr>allow = Some [''read'', ''exec''], deny = Some [''exec''], extends = Some ''minimal''\<rparr>]
     ''base'' = Some \<lparr>allow = Some [''read'', ''exec''], deny = Some [''exec''], extends = Some ''minimal''\<rparr>
   \<and> resolveNamedToolProfilePolicy ''base''
        [''base'' \<mapsto> \<lparr>allow = Some [''read'', ''exec''], deny = Some [''exec''], extends = Some ''minimal''\<rparr>]
       = Some (\<lparr>allow = Some [''read'', ''session_status''], deny = Some [''exec'']\<rparr>,
               \<lparr>resolvedFrom = [''base'', ''minimal''],
                effectiveAllow = [''read'', ''session_status''], effectiveDeny = [''exec'']\<rparr>)"
proof -
  let ?r = "\<lparr>allow = Some [''read'', ''exec''], deny = Some [''exec''], extends = Some ''minimal''\<rparr>"
  let ?np = "[''base'' \<mapsto> ?r]"
  have present: "?np ''base'' = Some ?r"
    by simp
  note rule = resolveNamed_merge_rule [of ?np "''base''" ?r, OF present]
  have chain: "resolvedChain ?np ''base'' = [''base'', ''minimal'']"
    by code_simp
  have gathered: "gatheredAllow ?np ''base'' = [''read'', ''exec'', ''session_status'']"
    "gatheredDeny ?np ''base'' = [''exec'']"
    by code_simp+
  have sets: "new_Set [''read'', ''exec'', ''session_status''] = [''read'', ''exec'', ''session_status'']"
    "new_Set [''exec''] = [''exec'']"
    by code_simp+
  show ?thesis
    using rule unfolding chain gathered sets by (simp add: Let_def)
qed

text \<open>
  Claim C9 (an allow list emptied by deny means unrestricted, not deny-all). When every
  gathered allow entry is also a gathered deny entry and the deny list is not empty, the
  returned policy has no allow field and its deny list is the deduplicated gathered deny list.
\<close>

theorem resolveNamed_allow_absent_when_all_denied:
  assumes "namedProfiles nm = Some profile"
    and "set (gatheredAllow namedProfiles nm) \<subseteq> set (gatheredDeny namedProfiles nm)"
    and "gatheredDeny namedProfiles nm \<noteq> []"
  shows "resolveNamedToolProfilePolicy nm namedProfiles =
           Some (\<lparr>allow = None, deny = Some (new_Set (gatheredDeny namedProfiles nm))\<rparr>,
                 \<lparr>resolvedFrom = resolvedChain namedProfiles nm,
                  effectiveAllow = [],
                  effectiveDeny = new_Set (gatheredDeny namedProfiles nm)\<rparr>)"
proof -
  have "filter (\<lambda>t. t \<notin> set (gatheredDeny namedProfiles nm))
               (new_Set (gatheredAllow namedProfiles nm)) = []"
    using assms(2) by (auto simp: filter_empty_conv)
  then show ?thesis
    using assms(1,3) resolveNamed_unfold [of namedProfiles nm profile] by (simp add: Let_def)
qed

theorem resolveNamed_allow_absent_when_all_denied_witness:
  "[''locked'' \<mapsto> \<lparr>allow = Some [''exec''], deny = Some [''exec'', ''write''], extends = None\<rparr>]
     ''locked'' = Some \<lparr>allow = Some [''exec''], deny = Some [''exec'', ''write''], extends = None\<rparr>
   \<and> set (gatheredAllow
            [''locked'' \<mapsto> \<lparr>allow = Some [''exec''], deny = Some [''exec'', ''write''], extends = None\<rparr>]
            ''locked'')
       \<subseteq> set (gatheredDeny
            [''locked'' \<mapsto> \<lparr>allow = Some [''exec''], deny = Some [''exec'', ''write''], extends = None\<rparr>]
            ''locked'')
   \<and> gatheredDeny
        [''locked'' \<mapsto> \<lparr>allow = Some [''exec''], deny = Some [''exec'', ''write''], extends = None\<rparr>]
        ''locked'' \<noteq> []
   \<and> resolveNamedToolProfilePolicy ''locked''
        [''locked'' \<mapsto> \<lparr>allow = Some [''exec''], deny = Some [''exec'', ''write''], extends = None\<rparr>]
       = Some (\<lparr>allow = None, deny = Some [''exec'', ''write'']\<rparr>,
               \<lparr>resolvedFrom = [''locked''], effectiveAllow = [],
                effectiveDeny = [''exec'', ''write'']\<rparr>)"
proof -
  let ?r = "\<lparr>allow = Some [''exec''], deny = Some [''exec'', ''write''], extends = None\<rparr>"
  let ?np = "[''locked'' \<mapsto> ?r]"
  have present: "?np ''locked'' = Some ?r"
    by simp
  have gathered: "gatheredAllow ?np ''locked'' = [''exec'']"
    "gatheredDeny ?np ''locked'' = [''exec'', ''write'']"
    by code_simp+
  have sub: "set (gatheredAllow ?np ''locked'') \<subseteq> set (gatheredDeny ?np ''locked'')"
    unfolding gathered by simp
  have ne: "gatheredDeny ?np ''locked'' \<noteq> []"
    unfolding gathered by simp
  have chain: "resolvedChain ?np ''locked'' = [''locked'']"
    by code_simp
  have sets: "new_Set [''exec'', ''write''] = [''exec'', ''write'']"
    by code_simp
  show ?thesis
    using resolveNamed_allow_absent_when_all_denied [of ?np "''locked''" ?r, OF present sub ne] sub ne
    unfolding chain gathered sets by simp
qed

lemma resolveLoop_stops_on_repeat:
  assumes "extends current = Some p" "p \<in> visited"
  shows "resolveLoop np (Some current) chain visited a d =
           (chain, a @ orEmpty (allow current), d @ orEmpty (deny current))"
  using assms by (simp add: resolveLoop.simps Let_def)

lemma resolveLoop_stops_on_builtin:
  assumes "extends current = Some p" "p \<noteq> []" "p \<notin> visited" "length chain < MAX_EXTENDS_DEPTH"
    "CORE_TOOL_PROFILES p = Some b"
  shows "resolveLoop np (Some current) chain visited a d =
           (chain @ [p],
            a @ orEmpty (allow current) @ orEmpty (allow b),
            d @ orEmpty (deny current) @ orEmpty (deny b))"
  using assms by (simp add: resolveLoop.simps Let_def)

lemma extendsPath_snoc:
  assumes "chain \<noteq> []" "extendsPath np chain" "np (last chain) = Some cur" "extends cur = Some p"
    "length chain = 1 \<or> CORE_TOOL_PROFILES (last chain) = None"
  shows "extendsPath np (chain @ [p])"
  using assms
proof (induction np chain rule: extendsPath.induct)
  case (1 np x y rest)
  have core: "CORE_TOOL_PROFILES (last (y # rest)) = None"
    using "1.prems"(5) by simp
  have "extendsPath np ((y # rest) @ [p])"
    using "1.prems" core by (intro "1.IH") auto
  moreover have "CORE_TOOL_PROFILES y = None"
    using "1.prems"(2) core by (cases rest) auto
  ultimately show ?case
    using "1.prems"(2) by simp
qed simp_all

lemma resolveLoop_path:
  assumes "chain \<noteq> []" "visited = set chain" "extendsPath np chain" "cur = np (last chain)"
    "length chain = 1 \<or> CORE_TOOL_PROFILES (last chain) = None"
  shows "extendsPath np (fst (resolveLoop np cur chain visited a d))
       \<and> stoppedAt np (fst (resolveLoop np cur chain visited a d))"
  using assms
proof (induction np cur chain visited a d rule: resolveLoop.induct)
  case (1 np chain visited a d)
  then show ?case
    by (simp add: resolveLoop.simps stoppedAt_def)
next
  case (2 np current chain visited a d)
  let ?a = "a @ orEmpty (allow current)" and ?d = "d @ orEmpty (deny current)"
  have here: "np (last chain) = Some current"
    using "2.prems"(4) by simp
  consider (stop) "extends current = None \<or> extends current = Some []
                   \<or> (\<exists>p. extends current = Some p \<and> (p \<in> visited \<or> length chain \<ge> MAX_EXTENDS_DEPTH))"
    | (builtin) p b where "extends current = Some p" "p \<noteq> []" "p \<notin> visited"
        "\<not> length chain \<ge> MAX_EXTENDS_DEPTH" "CORE_TOOL_PROFILES p = Some b"
    | (hop) p where "extends current = Some p" "p \<noteq> []" "p \<notin> visited"
        "\<not> length chain \<ge> MAX_EXTENDS_DEPTH" "CORE_TOOL_PROFILES p = None"
    by (cases "extends current") auto
  then show ?case
  proof cases
    case stop
    then have "resolveLoop np (Some current) chain visited a d = (chain, ?a, ?d)"
      by (auto simp: resolveLoop.simps Let_def)
    then show ?thesis
      using stop "2.prems"(2,3) here by (auto simp: stoppedAt_def)
  next
    case builtin
    then have "resolveLoop np (Some current) chain visited a d =
        (chain @ [p], ?a @ orEmpty (allow b), ?d @ orEmpty (deny b))"
      by (simp add: resolveLoop.simps Let_def)
    moreover have "extendsPath np (chain @ [p])"
      using "2.prems"(1,3) here builtin(1) "2.prems"(5) by (rule extendsPath_snoc)
    ultimately show ?thesis
      using builtin(5) "2.prems"(1) by (simp add: stoppedAt_def)
  next
    case hop
    have eq: "resolveLoop np (Some current) chain visited a d =
        resolveLoop np (np p) (chain @ [p]) (insert p visited) ?a ?d"
      using hop by (simp add: resolveLoop.simps Let_def)
    have path: "extendsPath np (chain @ [p])"
      using "2.prems"(1,3) here hop(1) "2.prems"(5) by (rule extendsPath_snoc)
    show ?thesis
      unfolding eq
      using "2.prems"(2) path hop(5)
      by (intro "2.IH" [OF refl refl hop(1) hop(2) hop(3) hop(4) hop(5)]) auto
  qed
qed

lemma resolvedChain_path:
  "extendsPath np (resolvedChain np nm)" "stoppedAt np (resolvedChain np nm)"
  using resolveLoop_path [of "[nm]" "{nm}" np "np nm" "[]" "[]"]
  by (simp_all add: resolvedChain_def)

lemma resolveLoop_stops_at_depth:
  assumes "extends current = Some p" "MAX_EXTENDS_DEPTH \<le> length chain"
  shows "resolveLoop np (Some current) chain visited a d =
           (chain, a @ orEmpty (allow current), d @ orEmpty (deny current))"
  using assms by (simp add: resolveLoop.simps Let_def)

text \<open>
  Claim C3, as amended (named profile resolution terminates). \<^verbatim>\<open>resolveLoop\<close> is a total
  function: its termination proof is the measure \<open>MAX_EXTENDS_DEPTH - length chain\<close>. For every
  profile name and every map the chain starts with the name, holds at most 5 names and no name
  twice, follows the \<^verbatim>\<open>extends\<close> links from member to member, ends for one of the five
  reasons of \<open>stoppedAt\<close>, and is the \<^verbatim>\<open>resolvedFrom\<close> of the trace whenever a result
  is returned. A parent that was already visited stops the walk at once, without an error.
  A parent that is a built-in profile is appended, its policy is merged and the walk stops,
  provided the parent was not visited before and the chain holds fewer than 5 names. Once the
  chain holds 5 names the walk stops before any parent, built-in or not, and merges nothing
  of it.
\<close>

theorem resolveNamed_bounded_walk:
  "length (resolvedChain np nm) \<le> 5
   \<and> distinct (resolvedChain np nm)
   \<and> hd (resolvedChain np nm) = nm
   \<and> extendsPath np (resolvedChain np nm)
   \<and> stoppedAt np (resolvedChain np nm)
   \<and> (\<forall>r. resolveNamedToolProfilePolicy nm np = Some r
          \<longrightarrow> resolvedFrom (snd r) = resolvedChain np nm)
   \<and> (\<forall>current p chain visited a d.
         extends current = Some p \<and> p \<in> visited
         \<longrightarrow> resolveLoop np (Some current) chain visited a d =
               (chain, a @ orEmpty (allow current), d @ orEmpty (deny current)))
   \<and> (\<forall>current p b chain visited a d.
         extends current = Some p \<and> p \<noteq> [] \<and> p \<notin> visited \<and> length chain < 5
         \<and> CORE_TOOL_PROFILES p = Some b
         \<longrightarrow> resolveLoop np (Some current) chain visited a d =
               (chain @ [p],
                a @ orEmpty (allow current) @ orEmpty (allow b),
                d @ orEmpty (deny current) @ orEmpty (deny b)))
   \<and> (\<forall>current p chain visited a d.
         extends current = Some p \<and> 5 \<le> length chain
         \<longrightarrow> resolveLoop np (Some current) chain visited a d =
               (chain, a @ orEmpty (allow current), d @ orEmpty (deny current)))"
proof -
  have trace: "resolvedFrom (snd r) = resolvedChain np nm"
    if "resolveNamedToolProfilePolicy nm np = Some r" for r
  proof (cases "np nm")
    case None
    with that show ?thesis by (simp add: resolveNamedToolProfilePolicy_def)
  next
    case (Some profile)
    with that resolveNamed_unfold [of np nm profile] show ?thesis
      by (auto simp: Let_def split: if_splits)
  qed
  show ?thesis
    using resolvedChain_bounds [of np nm] resolvedChain_path [of np nm] trace
      resolveLoop_stops_on_repeat [of _ _ _ np] resolveLoop_stops_on_builtin [of _ _ _ _ _ np]
      resolveLoop_stops_at_depth [of _ _ _ np]
    by (simp add: MAX_EXTENDS_DEPTH_def)
qed

theorem resolveNamed_bounded_walk_witness:
  "resolvedChain
     [''a'' \<mapsto> \<lparr>allow = Some [''x''], deny = None, extends = Some ''b''\<rparr>,
      ''b'' \<mapsto> \<lparr>allow = Some [''y''], deny = Some [''x''], extends = Some ''a''\<rparr>] ''a''
     = [''a'', ''b'']
   \<and> resolveNamedToolProfilePolicy ''a''
       [''a'' \<mapsto> \<lparr>allow = Some [''x''], deny = None, extends = Some ''b''\<rparr>,
        ''b'' \<mapsto> \<lparr>allow = Some [''y''], deny = Some [''x''], extends = Some ''a''\<rparr>]
     = Some (\<lparr>allow = Some [''y''], deny = Some [''x'']\<rparr>,
             \<lparr>resolvedFrom = [''a'', ''b''], effectiveAllow = [''y''], effectiveDeny = [''x'']\<rparr>)
   \<and> extendsPath
         [''a'' \<mapsto> \<lparr>allow = Some [''x''], deny = None, extends = Some ''b''\<rparr>,
          ''b'' \<mapsto> \<lparr>allow = Some [''y''], deny = Some [''x''], extends = Some ''a''\<rparr>]
         [''a'', ''b'']
   \<and> stoppedAt
         [''a'' \<mapsto> \<lparr>allow = Some [''x''], deny = None, extends = Some ''b''\<rparr>,
          ''b'' \<mapsto> \<lparr>allow = Some [''y''], deny = Some [''x''], extends = Some ''a''\<rparr>]
         [''a'', ''b'']
   \<and> extends \<lparr>allow = Some [''y''], deny = Some [''x''], extends = Some ''a''\<rparr> = Some ''a''
   \<and> ''a'' \<in> {''a'', ''b''}
   \<and> resolveLoop
         [''a'' \<mapsto> \<lparr>allow = Some [''x''], deny = None, extends = Some ''b''\<rparr>,
          ''b'' \<mapsto> \<lparr>allow = Some [''y''], deny = Some [''x''], extends = Some ''a''\<rparr>]
         (Some \<lparr>allow = Some [''y''], deny = Some [''x''], extends = Some ''a''\<rparr>)
         [''a'', ''b''] {''a'', ''b''} [''x''] []
       = ([''a'', ''b''], [''x'', ''y''], [''x''])
   \<and> extends \<lparr>allow = Some [''read''], deny = None, extends = Some ''minimal''\<rparr> = Some ''minimal''
   \<and> ''minimal'' \<notin> {''c''} \<and> length [''c''] < (5::nat)
   \<and> CORE_TOOL_PROFILES ''minimal'' = Some \<lparr>allow = Some [''session_status''], deny = None\<rparr>
   \<and> resolveLoop
         [''a'' \<mapsto> \<lparr>allow = Some [''x''], deny = None, extends = Some ''b''\<rparr>,
          ''b'' \<mapsto> \<lparr>allow = Some [''y''], deny = Some [''x''], extends = Some ''a''\<rparr>]
         (Some \<lparr>allow = Some [''read''], deny = None, extends = Some ''minimal''\<rparr>)
         [''c''] {''c''} [] []
       = ([''c'', ''minimal''], [''read'', ''session_status''], [])
   \<and> (5::nat) \<le> length [''p1'', ''p2'', ''p3'', ''p4'', ''p5'']
   \<and> resolveLoop
         [''a'' \<mapsto> \<lparr>allow = Some [''x''], deny = None, extends = Some ''b''\<rparr>,
          ''b'' \<mapsto> \<lparr>allow = Some [''y''], deny = Some [''x''], extends = Some ''a''\<rparr>]
         (Some \<lparr>allow = Some [''read''], deny = None, extends = Some ''minimal''\<rparr>)
         [''p1'', ''p2'', ''p3'', ''p4'', ''p5''] {''p1'', ''p2'', ''p3'', ''p4'', ''p5''} [] []
       = ([''p1'', ''p2'', ''p3'', ''p4'', ''p5''], [''read''], [])"
proof -
  let ?np = "[''a'' \<mapsto> \<lparr>allow = Some [''x''], deny = None, extends = Some ''b''\<rparr>,
              ''b'' \<mapsto> \<lparr>allow = Some [''y''], deny = Some [''x''], extends = Some ''a''\<rparr>]"
  note walk = resolveNamed_bounded_walk [of ?np "''a''"]
  note on_repeat = walk [THEN conjunct2, THEN conjunct2, THEN conjunct2, THEN conjunct2,
      THEN conjunct2, THEN conjunct2, THEN conjunct1, rule_format]
  note on_builtin = walk [THEN conjunct2, THEN conjunct2, THEN conjunct2, THEN conjunct2,
      THEN conjunct2, THEN conjunct2, THEN conjunct2, THEN conjunct1, rule_format]
  have chain: "resolvedChain ?np ''a'' = [''a'', ''b'']"
    by code_simp
  have result: "resolveNamedToolProfilePolicy ''a'' ?np
     = Some (\<lparr>allow = Some [''y''], deny = Some [''x'']\<rparr>,
             \<lparr>resolvedFrom = [''a'', ''b''], effectiveAllow = [''y''], effectiveDeny = [''x'']\<rparr>)"
    by code_simp
  have minimal: "CORE_TOOL_PROFILES ''minimal'' = Some \<lparr>allow = Some [''session_status''], deny = None\<rparr>"
    by code_simp
  have repeat: "resolveLoop ?np (Some \<lparr>allow = Some [''y''], deny = Some [''x''], extends = Some ''a''\<rparr>)
         [''a'', ''b''] {''a'', ''b''} [''x''] [] = ([''a'', ''b''], [''x'', ''y''], [''x''])"
    using on_repeat [where current = "\<lparr>allow = Some [''y''], deny = Some [''x''], extends = Some ''a''\<rparr>"
        and p = "''a''" and visited = "{''a'', ''b''}" and chain = "[''a'', ''b'']"
        and a = "[''x'']" and d = "[]"]
    by (simp add: orEmpty_def)
  have builtin: "resolveLoop ?np (Some \<lparr>allow = Some [''read''], deny = None, extends = Some ''minimal''\<rparr>)
         [''c''] {''c''} [] [] = ([''c'', ''minimal''], [''read'', ''session_status''], [])"
    using on_builtin [where current = "\<lparr>allow = Some [''read''], deny = None, extends = Some ''minimal''\<rparr>"
        and p = "''minimal''" and visited = "{''c''}" and chain = "[''c'']"
        and a = "[]" and d = "[]", OF conjI [OF _ conjI [OF _ conjI [OF _ conjI [OF _ minimal]]]]]
    by (simp add: orEmpty_def)
  note at_depth = walk [THEN conjunct2, THEN conjunct2, THEN conjunct2, THEN conjunct2,
      THEN conjunct2, THEN conjunct2, THEN conjunct2, THEN conjunct2, rule_format]
  have depth: "resolveLoop ?np (Some \<lparr>allow = Some [''read''], deny = None, extends = Some ''minimal''\<rparr>)
         [''p1'', ''p2'', ''p3'', ''p4'', ''p5''] {''p1'', ''p2'', ''p3'', ''p4'', ''p5''} [] []
       = ([''p1'', ''p2'', ''p3'', ''p4'', ''p5''], [''read''], [])"
    using at_depth [where current = "\<lparr>allow = Some [''read''], deny = None, extends = Some ''minimal''\<rparr>"
        and p = "''minimal''" and visited = "{''p1'', ''p2'', ''p3'', ''p4'', ''p5''}"
        and chain = "[''p1'', ''p2'', ''p3'', ''p4'', ''p5'']" and a = "[]" and d = "[]"]
    by (simp add: orEmpty_def)
  have shape: "extendsPath ?np [''a'', ''b'']" "stoppedAt ?np [''a'', ''b'']"
    using walk unfolding chain by simp_all
  show ?thesis
    using chain result minimal repeat builtin shape depth by simp
qed

text \<open>
  The claim as stated fails at the depth limit: the fifth profile of a chain extends the
  built-in profile \<open>minimal\<close>, and the walk stops before it, so the policy of \<open>minimal\<close> is
  not merged.
\<close>

theorem extends_builtin_beyond_depth_counterexample:
  "extends \<lparr>allow = None, deny = None, extends = Some ''minimal''\<rparr> = Some ''minimal''
   \<and> CORE_TOOL_PROFILES ''minimal'' = Some \<lparr>allow = Some [''session_status''], deny = None\<rparr>
   \<and> resolveNamedToolProfilePolicy ''p1''
        [''p1'' \<mapsto> \<lparr>allow = Some [''read''], deny = None, extends = Some ''p2''\<rparr>,
         ''p2'' \<mapsto> \<lparr>allow = None, deny = None, extends = Some ''p3''\<rparr>,
         ''p3'' \<mapsto> \<lparr>allow = None, deny = None, extends = Some ''p4''\<rparr>,
         ''p4'' \<mapsto> \<lparr>allow = None, deny = None, extends = Some ''p5''\<rparr>,
         ''p5'' \<mapsto> \<lparr>allow = None, deny = None, extends = Some ''minimal''\<rparr>]
       = Some (\<lparr>allow = Some [''read''], deny = None\<rparr>,
               \<lparr>resolvedFrom = [''p1'', ''p2'', ''p3'', ''p4'', ''p5''],
                effectiveAllow = [''read''], effectiveDeny = []\<rparr>)"
  by code_simp

lemma resolvedChain_examples:
  "resolvedChain [''self'' \<mapsto> \<lparr>allow = None, deny = None, extends = Some ''self''\<rparr>] ''self''
     = [''self'']"
  "resolvedChain
     [''p1'' \<mapsto> \<lparr>allow = None, deny = None, extends = Some ''p2''\<rparr>,
      ''p2'' \<mapsto> \<lparr>allow = None, deny = None, extends = Some ''p3''\<rparr>,
      ''p3'' \<mapsto> \<lparr>allow = None, deny = None, extends = Some ''p4''\<rparr>,
      ''p4'' \<mapsto> \<lparr>allow = None, deny = None, extends = Some ''p5''\<rparr>,
      ''p5'' \<mapsto> \<lparr>allow = None, deny = None, extends = Some ''p6''\<rparr>,
      ''p6'' \<mapsto> \<lparr>allow = None, deny = None, extends = Some ''p7''\<rparr>,
      ''p7'' \<mapsto> \<lparr>allow = None, deny = None, extends = None\<rparr>] ''p1''
     = [''p1'', ''p2'', ''p3'', ''p4'', ''p5'']"
  "resolvedChain [''top'' \<mapsto> \<lparr>allow = None, deny = None, extends = Some ''gone''\<rparr>] ''top''
     = [''top'', ''gone'']"
  "resolvedChain [''top'' \<mapsto> \<lparr>allow = None, deny = None, extends = Some ''full''\<rparr>] ''top''
     = [''top'', ''full'']"
  by code_simp+

section \<open>Properties of the pipeline\<close>

text \<open>
  The tests of tool-policy-pipeline.test.ts that fix a result, and scenarios S1, S3 and S4 of
  the specification, run on the model: the helpers written after the specification agree with
  them.
\<close>

lemma applyToolPolicyPipeline_tests:
  \<comment> \<open>strips allowlists that would otherwise disable core tools\<close>
  "applyToolPolicyPipeline
     [\<lparr>name = ''exec''\<rparr>, \<lparr>name = ''plugin_tool''\<rparr>]
     (\<lambda>t. if name t = ''plugin_tool'' then Some ''foo'' else None)
     [\<lparr>policy = Some \<lparr>allow = Some [''plugin_tool''], deny = None\<rparr>, label = ''tools.allow'',
       stripPluginOnlyAllowlist_opt = Some True\<rparr>]
     None
   = ([\<lparr>name = ''exec''\<rparr>, \<lparr>name = ''plugin_tool''\<rparr>],
      [unknownEntriesWarning ''tools.allow'' [''plugin_tool''] True])"
  \<comment> \<open>warns about unknown allowlist entries (scenario S4 of the specification)\<close>
  "applyToolPolicyPipeline
     [\<lparr>name = ''exec''\<rparr>] (\<lambda>t. None)
     [\<lparr>policy = Some \<lparr>allow = Some [''wat''], deny = None\<rparr>, label = ''tools.allow'',
       stripPluginOnlyAllowlist_opt = Some True\<rparr>]
     None
   = ([\<lparr>name = ''exec''\<rparr>], [unknownEntriesWarning ''tools.allow'' [''wat''] True])"
  \<comment> \<open>applies allowlist filtering when core tools are explicitly listed\<close>
  "applyToolPolicyPipeline
     [\<lparr>name = ''exec''\<rparr>, \<lparr>name = ''process''\<rparr>] (\<lambda>t. None)
     [\<lparr>policy = Some \<lparr>allow = Some [''exec''], deny = None\<rparr>, label = ''tools.allow'',
       stripPluginOnlyAllowlist_opt = Some True\<rparr>]
     None
   = ([\<lparr>name = ''exec''\<rparr>], [])"
  \<comment> \<open>ordering: session override runs after sandbox and subagent steps\<close>
  "applyToolPolicyPipeline
     [\<lparr>name = ''read''\<rparr>, \<lparr>name = ''write''\<rparr>, \<lparr>name = ''exec''\<rparr>, \<lparr>name = ''message''\<rparr>,
      \<lparr>name = ''session_status''\<rparr>, \<lparr>name = ''web_search''\<rparr>, \<lparr>name = ''grep''\<rparr>]
     (\<lambda>t. None)
     [\<lparr>policy = Some \<lparr>allow = Some [''read'', ''exec'', ''message'', ''grep''], deny = None\<rparr>,
       label = ''sandbox tools.allow'', stripPluginOnlyAllowlist_opt = None\<rparr>,
      \<lparr>policy = Some \<lparr>allow = Some [''read'', ''exec'', ''message''], deny = None\<rparr>,
       label = ''subagent tools.allow'', stripPluginOnlyAllowlist_opt = None\<rparr>,
      \<lparr>policy = Some \<lparr>allow = None, deny = Some [''exec'']\<rparr>,
       label = ''session override'', stripPluginOnlyAllowlist_opt = None\<rparr>]
     None
   = ([\<lparr>name = ''read''\<rparr>, \<lparr>name = ''message''\<rparr>], [])"
  \<comment> \<open>deny wins: a tool in both allow and deny is excluded\<close>
  "applyToolPolicyPipeline
     [\<lparr>name = ''read''\<rparr>, \<lparr>name = ''write''\<rparr>, \<lparr>name = ''exec''\<rparr>, \<lparr>name = ''message''\<rparr>]
     (\<lambda>t. None)
     [\<lparr>policy = Some \<lparr>allow = Some [''read'', ''exec'', ''message''], deny = Some [''exec'']\<rparr>,
       label = ''test'', stripPluginOnlyAllowlist_opt = None\<rparr>]
     None
   = ([\<lparr>name = ''read''\<rparr>, \<lparr>name = ''message''\<rparr>], [])"
  by code_simp+

lemma deny_stripPluginOnlyAllowlist [simp]:
  "deny (resolvedPolicy (stripPluginOnlyAllowlist p groups core)) = deny p"
  by (simp add: stripPluginOnlyAllowlist_def Let_def split: option.splits)

lemma fst_applyStep:
  "fst (applyStep core groups step (filtered, warnings)) =
     (case stepPolicy core groups step of
        None \<Rightarrow> filtered
      | Some e \<Rightarrow> filter (policyKeeps e) filtered)"
  by (auto simp: applyStep_def stepPolicy_def Let_def filterToolsByPolicy_def
      expandPolicyWithPluginGroups_def split: option.splits prod.splits)

lemma subseq_applyStep:
  "subseq (fst (applyStep core groups step state)) (fst state)"
  by (cases state) (simp add: fst_applyStep split: option.splits)

lemma subseq_fold_applyStep:
  "subseq (fst (fold (applyStep core groups) steps state)) (fst state)"
proof (induction steps arbitrary: state)
  case Nil
  then show ?case by simp
next
  case (Cons step steps)
  have "subseq (fst (fold (applyStep core groups) steps (applyStep core groups step state)))
               (fst (applyStep core groups step state))"
    by (rule Cons.IH)
  then show ?case
    using subseq_applyStep [of core groups step state] by (auto intro: subseq_order.trans)
qed

lemma fst_applyToolPolicyPipeline:
  "fst (applyToolPolicyPipeline tools toolMeta steps ctx) =
     fst (fold (applyStep
                 (new_Set (filter truthy (map (\<lambda>tool. normalizeToolName (name tool))
                                              (filter (\<lambda>tool. toolMeta tool = None) tools))))
                 (buildPluginToolGroups tools toolMeta))
               steps (tools, []))"
  by (simp add: applyToolPolicyPipeline_def Let_def split: prod.splits)

text \<open>
  Claim C2 (monotone narrowing). The list returned by \<^verbatim>\<open>applyToolPolicyPipeline\<close> is a
  subsequence of the input list: it is no longer than the input and every tool of it is a
  tool of the input. The same holds at every step boundary: the working list after a step
  is a subsequence of the working list the step received.
\<close>

theorem pipeline_monotone_narrowing:
  "subseq (fst (applyToolPolicyPipeline tools toolMeta steps ctx)) tools
   \<and> length (fst (applyToolPolicyPipeline tools toolMeta steps ctx)) \<le> length tools
   \<and> set (fst (applyToolPolicyPipeline tools toolMeta steps ctx)) \<subseteq> set tools
   \<and> subseq (fst (applyStep core groups step (working, warnings))) working
   \<and> length (fst (applyStep core groups step (working, warnings))) \<le> length working
   \<and> set (fst (applyStep core groups step (working, warnings))) \<subseteq> set working"
proof -
  have whole: "subseq (fst (applyToolPolicyPipeline tools toolMeta steps ctx)) tools"
    unfolding fst_applyToolPolicyPipeline
    using subseq_fold_applyStep [of _ _ steps "(tools, [])"] by simp
  have one: "subseq (fst (applyStep core groups step (working, warnings))) working"
    using subseq_applyStep [of core groups step "(working, warnings)"] by simp
  show ?thesis
    using whole one by (auto dest: list_emb_length list_emb_set)
qed

theorem pipeline_monotone_narrowing_witness:
  "subseq [\<lparr>name = ''read''\<rparr>, \<lparr>name = ''exec''\<rparr>]
          [\<lparr>name = ''read''\<rparr>, \<lparr>name = ''write''\<rparr>, \<lparr>name = ''exec''\<rparr>, \<lparr>name = ''message''\<rparr>]
   \<and> fst (applyToolPolicyPipeline
            [\<lparr>name = ''read''\<rparr>, \<lparr>name = ''write''\<rparr>, \<lparr>name = ''exec''\<rparr>, \<lparr>name = ''message''\<rparr>]
            (\<lambda>tool. None)
            [\<lparr>policy = Some \<lparr>allow = Some [''read'', ''exec''], deny = None\<rparr>,
              label = ''sandbox'', stripPluginOnlyAllowlist_opt = None\<rparr>,
             \<lparr>policy = Some \<lparr>allow = Some [''read'', ''exec'', ''write'', ''message''], deny = None\<rparr>,
              label = ''session override'', stripPluginOnlyAllowlist_opt = None\<rparr>]
            None)
       = [\<lparr>name = ''read''\<rparr>, \<lparr>name = ''exec''\<rparr>]"
proof -
  let ?tools = "[\<lparr>name = ''read''\<rparr>, \<lparr>name = ''write''\<rparr>, \<lparr>name = ''exec''\<rparr>, \<lparr>name = ''message''\<rparr>]"
  let ?meta = "\<lambda>tool :: AnyAgentTool. None :: string option"
  let ?steps = "[\<lparr>policy = Some \<lparr>allow = Some [''read'', ''exec''], deny = None\<rparr>,
                  label = ''sandbox'', stripPluginOnlyAllowlist_opt = None\<rparr>,
                 \<lparr>policy = Some \<lparr>allow = Some [''read'', ''exec'', ''write'', ''message''], deny = None\<rparr>,
                  label = ''session override'', stripPluginOnlyAllowlist_opt = None\<rparr>]"
  have result: "fst (applyToolPolicyPipeline ?tools ?meta ?steps None)
                  = [\<lparr>name = ''read''\<rparr>, \<lparr>name = ''exec''\<rparr>]"
    by code_simp
  show ?thesis
    using pipeline_monotone_narrowing [of ?tools ?meta ?steps None] result by simp
qed

lemma denied_applyStep:
  assumes "denyNames groups step t"
  shows "t \<notin> set (fst (applyStep core groups step state))"
proof -
  obtain p entries where p: "policy step = Some p" "deny p = Some entries"
    and named: "normalizeToolName (name t) \<in> set (expandEntries groups entries)"
    using assms by (auto simp: denyNames_def split: option.splits)
  obtain e where e: "stepPolicy core groups step = Some e"
    and de: "expandedDeny e = Some (expandEntries groups entries)"
    using p by (auto simp: stepPolicy_def expandPolicyWithPluginGroups_def)
  have "\<not> policyKeeps e t"
    using de named by (simp add: policyKeeps_def Let_def)
  then show ?thesis
    by (cases state) (simp add: fst_applyStep e)
qed

lemma absent_fold_applyStep:
  "t \<notin> set (fst state) \<Longrightarrow> t \<notin> set (fst (fold (applyStep core groups) steps state))"
  using subseq_fold_applyStep [of core groups steps state] by (auto dest: list_emb_set)

lemma denied_fold_applyStep:
  assumes "step \<in> set steps" "denyNames groups step t"
  shows "t \<notin> set (fst (fold (applyStep core groups) steps state))"
proof -
  obtain before after where split: "steps = before @ step # after"
    using assms(1) by (auto simp: in_set_conv_decomp)
  let ?mid = "applyStep core groups step (fold (applyStep core groups) before state)"
  have "t \<notin> set (fst ?mid)"
    using assms(2) by (rule denied_applyStep)
  then have "t \<notin> set (fst (fold (applyStep core groups) after ?mid))"
    by (rule absent_fold_applyStep)
  then show ?thesis
    by (simp add: split)
qed

lemma set_expandEntries:
  "set (expandEntries groups entries) =
     (\<Union>entry \<in> set (normalizeToolList (Some entries)).
        case groupMembers groups entry of
          Some members \<Rightarrow> normalizeToolName ` set members
        | None \<Rightarrow> {entry})"
  by (auto simp: expandEntries_def set_new_Set split: option.splits)

text \<open>
  A deny list names a tool directly, by an entry with the same canonical form as the name of
  the tool (the same name up to casing, padding and aliases) that is not a group key, or
  through a group one of whose members has the canonical form of the name.
\<close>

lemma denyNames_direct:
  assumes "policy step = Some p" "deny p = Some entries" "entry \<in> set entries"
    "normalizeToolName entry = normalizeToolName (name t)"
    "truthy (normalizeToolName entry)"
    "groupMembers groups (normalizeToolName entry) = None"
  shows "denyNames groups step t"
proof -
  have "normalizeToolName entry \<in> set (normalizeToolList (Some entries))"
    using assms(3,5) by (simp add: normalizeToolList_def)
  then have "normalizeToolName entry \<in> set (expandEntries groups entries)"
    using assms(6) unfolding set_expandEntries by force
  then show ?thesis
    using assms(1,2,4) by (simp add: denyNames_def)
qed

lemma denyNames_group:
  assumes "policy step = Some p" "deny p = Some entries" "entry \<in> set entries"
    "truthy (normalizeToolName entry)"
    "groupMembers groups (normalizeToolName entry) = Some members"
    "m \<in> set members" "normalizeToolName m = normalizeToolName (name t)"
  shows "denyNames groups step t"
proof -
  have "normalizeToolName entry \<in> set (normalizeToolList (Some entries))"
    using assms(3,4) by (simp add: normalizeToolList_def)
  moreover have "normalizeToolName (name t) \<in> normalizeToolName ` set members"
    using assms(6,7) by (metis imageI)
  ultimately have "normalizeToolName (name t) \<in> set (expandEntries groups entries)"
    using assms(5) unfolding set_expandEntries by force
  then show ?thesis
    using assms(1,2) by (simp add: denyNames_def)
qed

text \<open>
  A group key begins with \<open>group:\<close>, and so does its canonical form; the name of a tool (a
  lowercase snake-case id, section 3 of the specification) does not. So an entry with the
  canonical form of the name of a tool is never taken for a group reference, and it denies
  the tool.
\<close>

lemma dropWhile_keeps_suffix:
  assumes "ys \<noteq> []" "\<not> P (hd ys)"
  shows "\<exists>zs. dropWhile P (xs @ ys) = zs @ ys"
proof (cases "\<forall>x \<in> set xs. P x")
  case True
  then have "dropWhile P (xs @ ys) = ys"
    using assms by (cases ys) (simp_all add: dropWhile_append)
  then show ?thesis by simp
next
  case False
  then have "dropWhile P (xs @ ys) = dropWhile P xs @ ys"
    by (auto simp: dropWhile_append)
  then show ?thesis by blast
qed

lemma trim_group_key:
  "\<exists>rest'. trim (''group:'' @ rest) = ''group:'' @ rest'"
proof -
  have ws: "\<not> isWhiteSpace CHR ''g''" "\<not> isWhiteSpace CHR '':''"
    by (simp_all add: isWhiteSpace_def)
  have front: "dropWhile isWhiteSpace (''group:'' @ rest) = ''group:'' @ rest"
    using ws by simp
  obtain zs where "dropWhile isWhiteSpace (rev rest @ rev ''group:'') = zs @ rev ''group:''"
    using dropWhile_keeps_suffix [of "rev ''group:''" isWhiteSpace "rev rest"] ws by auto
  then have "trim (''group:'' @ rest) = ''group:'' @ rev zs"
    unfolding trim_def front by simp
  then show ?thesis by blast
qed

lemma normalizeToolName_group_key:
  assumes "take 6 key = ''group:''"
  shows "\<exists>s. normalizeToolName key = Str s \<and> take 6 s = ''group:''"
proof -
  have "key = ''group:'' @ drop 6 key"
    using assms by (metis append_take_drop_id)
  then obtain rest' where t: "trim key = ''group:'' @ rest'"
    using trim_group_key [of "drop 6 key"] by auto
  have low: "toLowerCase ''group:'' = ''group:''"
    by code_simp
  have l: "toLowerCase (trim key) = ''group:'' @ toLowerCase rest'"
    using low unfolding t toLowerCase_def by simp
  have "TOOL_NAME_ALIASES (''group:'' @ r) = None" for r
    by (simp add: TOOL_NAME_ALIASES_def Object_prototype_lookup_def)
  then show ?thesis
    by (simp add: normalizeToolName_def l)
qed

lemma fst_set_Map_set: "fst ` set (Map_set k v m) = insert k (fst ` set m)"
  by (force simp: Map_set_def split: if_splits)

lemma keys_buildPluginToolGroups:
  "key \<in> fst ` set (buildPluginToolGroups tools toolMeta) \<Longrightarrow> take 6 key = ''group:''"
proof -
  have "fst ` set (fold (\<lambda>tool groups.
             case toolMeta tool of
               None \<Rightarrow> groups
             | Some pluginId \<Rightarrow> pluginGroupsAdd (''group:plugin:'' @ pluginId) (name tool) groups)
          tools acc) \<subseteq> fst ` set acc \<union> {k. take 6 k = ''group:''}" for acc
  proof (induction tools arbitrary: acc)
    case Nil
    then show ?case by simp
  next
    case (Cons tool tools)
    show ?case
    proof (cases "toolMeta tool")
      case None
      then show ?thesis using Cons.IH [of acc] by simp
    next
      case (Some pluginId)
      then show ?thesis
        using Cons.IH [of "pluginGroupsAdd (''group:plugin:'' @ pluginId) (name tool) acc"]
        by (auto simp: pluginGroupsAdd_def fst_set_Map_set)
    qed
  qed
  from this [of "[]"] show "key \<in> fst ` set (buildPluginToolGroups tools toolMeta) \<Longrightarrow> take 6 key = ''group:''"
    by (auto simp: buildPluginToolGroups_def)
qed

lemma keys_CORE_TOOL_GROUPS:
  "list_all (\<lambda>key. take 6 key = ''group:'') (map fst CORE_TOOL_GROUPS)"
  by code_simp

lemma groupMembers_group_key:
  assumes "groupMembers (buildPluginToolGroups tools toolMeta) v = Some members"
  shows "\<exists>s. v = Str s \<and> take 6 s = ''group:''"
proof (cases "case v of Str key \<Rightarrow> map_of CORE_TOOL_GROUPS key | _ \<Rightarrow> None")
  case (Some ms)
  then obtain s where s: "v = Str s" "map_of CORE_TOOL_GROUPS s = Some ms"
    by (cases v) auto
  then have "s \<in> set (map fst CORE_TOOL_GROUPS)"
    by (metis map_of_SomeD image_eqI fst_conv set_map)
  then show ?thesis
    using keys_CORE_TOOL_GROUPS s(1) by (auto simp: list_all_iff)
next
  case None
  let ?groups = "buildPluginToolGroups tools toolMeta"
  from None assms
  have "map_of (map (\<lambda>(key, members). (normalizeToolName key, members)) ?groups) v = Some members"
    by (simp add: groupMembers_def)
  then obtain key where "key \<in> fst ` set ?groups" "v = normalizeToolName key"
    by (force dest: map_of_SomeD)
  then show ?thesis
    using keys_buildPluginToolGroups [of key tools toolMeta] normalizeToolName_group_key [of key]
    by auto
qed

lemma denyNames_by_name:
  assumes "policy step = Some p" "deny p = Some entries" "entry \<in> set entries"
    "normalizeToolName entry = normalizeToolName (name t)"
    "truthy (normalizeToolName (name t))"
    "\<not> (\<exists>s. normalizeToolName (name t) = Str s \<and> take 6 s = ''group:'')"
  shows "denyNames (buildPluginToolGroups tools toolMeta) step t"
proof -
  have "groupMembers (buildPluginToolGroups tools toolMeta) (normalizeToolName entry) = None"
    using assms(4,6) groupMembers_group_key [of tools toolMeta "normalizeToolName entry"]
    by (cases "groupMembers (buildPluginToolGroups tools toolMeta) (normalizeToolName entry)") auto
  then show ?thesis
    using assms by (intro denyNames_direct [where entry = entry]) simp_all
qed

text \<open>
  Downstream of the resolver: a policy without an allow list keeps every tool that its deny
  list does not name, while an empty allow list would remove every tool.
\<close>

lemma filterToolsByPolicy_allow_absent:
  "expandedAllow p = None \<Longrightarrow>
     filterToolsByPolicy tools p =
       filter (\<lambda>t. case expandedDeny p of None \<Rightarrow> True
                     | Some entries \<Rightarrow> normalizeToolName (name t) \<notin> set entries) tools"
  by (auto simp: filterToolsByPolicy_def policyKeeps_def Let_def intro: filter_cong)

lemma filterToolsByPolicy_allow_empty:
  "expandedAllow p = Some [] \<Longrightarrow> filterToolsByPolicy tools p = []"
  by (simp add: filterToolsByPolicy_def policyKeeps_def Let_def)

lemma expandedAllow_absent:
  "allow p = None \<Longrightarrow>
     \<exists>e. expandPolicyWithPluginGroups (Some p) groups = Some e \<and> expandedAllow e = None"
  by (simp add: expandPolicyWithPluginGroups_def)

text \<open>
  Claim C1 (deny dominance). If the deny list of some step names a tool after normalization,
  then the tool is not in the list that \<^verbatim>\<open>applyToolPolicyPipeline\<close> returns, whatever the
  allow lists of that step and of the other steps are. The deny list names the tool when,
  with its entries normalized and its group references expanded, it holds the normalized name
  of the tool; in particular when one of its entries has the same canonical form as the name
  of the tool (the name itself, an alias, another casing, padding), for every tool whose
  canonical name is not empty and is not a group reference.
\<close>

theorem pipeline_deny_dominance:
  assumes "step \<in> set steps"
    and "denyNames (buildPluginToolGroups tools toolMeta) step t
         \<or> (\<exists>p entries entry.
               policy step = Some p \<and> deny p = Some entries \<and> entry \<in> set entries
               \<and> normalizeToolName entry = normalizeToolName (name t)
               \<and> truthy (normalizeToolName (name t))
               \<and> \<not> (\<exists>s. normalizeToolName (name t) = Str s \<and> take 6 s = ''group:''))"
  shows "t \<notin> set (fst (applyToolPolicyPipeline tools toolMeta steps ctx))"
proof -
  have "denyNames (buildPluginToolGroups tools toolMeta) step t"
    using assms(2) denyNames_by_name [of step _ _ _ t tools toolMeta] by blast
  with assms(1) show ?thesis
    unfolding fst_applyToolPolicyPipeline by (rule denied_fold_applyStep)
qed

theorem pipeline_deny_dominance_witness:
  "\<lparr>policy = Some \<lparr>allow = None, deny = Some ['' BASH '', ''group:fs'', ''Constructor'']\<rparr>,
     label = ''sandbox'', stripPluginOnlyAllowlist_opt = None\<rparr>
     \<in> set [\<lparr>policy = Some \<lparr>allow = None, deny = Some ['' BASH '', ''group:fs'', ''Constructor'']\<rparr>,
               label = ''sandbox'', stripPluginOnlyAllowlist_opt = None\<rparr>,
              \<lparr>policy = Some \<lparr>allow = Some [''read'', ''exec'', ''bash'', ''constructor'', ''message''],
                              deny = None\<rparr>,
               label = ''session override'', stripPluginOnlyAllowlist_opt = None\<rparr>]
   \<and> denyNames
        (buildPluginToolGroups
           [\<lparr>name = ''read''\<rparr>, \<lparr>name = ''Exec''\<rparr>, \<lparr>name = ''bash''\<rparr>,
            \<lparr>name = ''constructor''\<rparr>, \<lparr>name = ''message''\<rparr>, \<lparr>name = ''grep''\<rparr>]
           (\<lambda>tool. None))
        \<lparr>policy = Some \<lparr>allow = None, deny = Some ['' BASH '', ''group:fs'', ''Constructor'']\<rparr>,
         label = ''sandbox'', stripPluginOnlyAllowlist_opt = None\<rparr>
        \<lparr>name = ''Exec''\<rparr>
   \<and> \<lparr>name = ''Exec''\<rparr>
       \<notin> set (fst (applyToolPolicyPipeline
                      [\<lparr>name = ''read''\<rparr>, \<lparr>name = ''Exec''\<rparr>, \<lparr>name = ''bash''\<rparr>,
                       \<lparr>name = ''constructor''\<rparr>, \<lparr>name = ''message''\<rparr>, \<lparr>name = ''grep''\<rparr>]
                      (\<lambda>tool. None)
                      [\<lparr>policy = Some \<lparr>allow = None,
                                       deny = Some ['' BASH '', ''group:fs'', ''Constructor'']\<rparr>,
                        label = ''sandbox'', stripPluginOnlyAllowlist_opt = None\<rparr>,
                       \<lparr>policy = Some \<lparr>allow = Some [''read'', ''exec'', ''bash'', ''constructor'',
                                                     ''message''],
                                       deny = None\<rparr>,
                        label = ''session override'', stripPluginOnlyAllowlist_opt = None\<rparr>]
                      None))
   \<and> normalizeToolName '' BASH '' = normalizeToolName (name \<lparr>name = ''bash''\<rparr>)
   \<and> \<lparr>name = ''bash''\<rparr>
       \<notin> set (fst (applyToolPolicyPipeline
                      [\<lparr>name = ''read''\<rparr>, \<lparr>name = ''Exec''\<rparr>, \<lparr>name = ''bash''\<rparr>,
                       \<lparr>name = ''constructor''\<rparr>, \<lparr>name = ''message''\<rparr>, \<lparr>name = ''grep''\<rparr>]
                      (\<lambda>tool. None)
                      [\<lparr>policy = Some \<lparr>allow = None,
                                       deny = Some ['' BASH '', ''group:fs'', ''Constructor'']\<rparr>,
                        label = ''sandbox'', stripPluginOnlyAllowlist_opt = None\<rparr>,
                       \<lparr>policy = Some \<lparr>allow = Some [''read'', ''exec'', ''bash'', ''constructor'',
                                                     ''message''],
                                       deny = None\<rparr>,
                        label = ''session override'', stripPluginOnlyAllowlist_opt = None\<rparr>]
                      None))
   \<and> fst (applyToolPolicyPipeline
            [\<lparr>name = ''read''\<rparr>, \<lparr>name = ''Exec''\<rparr>, \<lparr>name = ''bash''\<rparr>,
             \<lparr>name = ''constructor''\<rparr>, \<lparr>name = ''message''\<rparr>, \<lparr>name = ''grep''\<rparr>]
            (\<lambda>tool. None)
            [\<lparr>policy = Some \<lparr>allow = None, deny = Some ['' BASH '', ''group:fs'', ''Constructor'']\<rparr>,
              label = ''sandbox'', stripPluginOnlyAllowlist_opt = None\<rparr>,
             \<lparr>policy = Some \<lparr>allow = Some [''read'', ''exec'', ''bash'', ''constructor'', ''message''],
                             deny = None\<rparr>,
              label = ''session override'', stripPluginOnlyAllowlist_opt = None\<rparr>]
            None)
       = [\<lparr>name = ''message''\<rparr>]"
proof -
  let ?tools = "[\<lparr>name = ''read''\<rparr>, \<lparr>name = ''Exec''\<rparr>, \<lparr>name = ''bash''\<rparr>,
                 \<lparr>name = ''constructor''\<rparr>, \<lparr>name = ''message''\<rparr>, \<lparr>name = ''grep''\<rparr>]"
  let ?meta = "\<lambda>tool :: AnyAgentTool. None :: string option"
  let ?sandbox = "\<lparr>policy = Some \<lparr>allow = None, deny = Some ['' BASH '', ''group:fs'', ''Constructor'']\<rparr>,
                   label = ''sandbox'', stripPluginOnlyAllowlist_opt = None\<rparr>"
  let ?session = "\<lparr>policy = Some \<lparr>allow = Some [''read'', ''exec'', ''bash'', ''constructor'', ''message''],
                                   deny = None\<rparr>,
                   label = ''session override'', stripPluginOnlyAllowlist_opt = None\<rparr>"
  have member: "?sandbox \<in> set [?sandbox, ?session]"
    by simp
  have named: "denyNames (buildPluginToolGroups ?tools ?meta) ?sandbox \<lparr>name = ''Exec''\<rparr>"
    by code_simp
  have result: "fst (applyToolPolicyPipeline ?tools ?meta [?sandbox, ?session] None)
                  = [\<lparr>name = ''message''\<rparr>]"
    by code_simp
  have canon: "normalizeToolName '' BASH '' = Str ''exec''" "normalizeToolName ''bash'' = Str ''exec''"
    by code_simp+
  have by_name:
    "\<exists>p entries entry.
        policy ?sandbox = Some p \<and> deny p = Some entries \<and> entry \<in> set entries
        \<and> normalizeToolName entry = normalizeToolName (name \<lparr>name = ''bash''\<rparr>)
        \<and> truthy (normalizeToolName (name \<lparr>name = ''bash''\<rparr>))
        \<and> \<not> (\<exists>s. normalizeToolName (name \<lparr>name = ''bash''\<rparr>) = Str s
                   \<and> take 6 s = ''group:'')"
    by (intro exI [of _ "\<lparr>allow = None, deny = Some ['' BASH '', ''group:fs'', ''Constructor'']\<rparr>"]
          exI [of _ "['' BASH '', ''group:fs'', ''Constructor'']"] exI [of _ "'' BASH ''"])
       (simp add: canon truthy_def)
  have bash: "\<lparr>name = ''bash''\<rparr>
                \<notin> set (fst (applyToolPolicyPipeline ?tools ?meta [?sandbox, ?session] None))"
    using member disjI2 [OF by_name] by (rule pipeline_deny_dominance)
  show ?thesis
    using pipeline_deny_dominance [OF member disjI1 [OF named], of None] member named result
      canon bash
    by simp
qed

text \<open>
  Entries that name a tool by an alias, by another casing or with padding, and an entry for
  a tool whose name is a key inherited from \<^verbatim>\<open>Object.prototype\<close>: each denies the tool.
\<close>

lemma denyNames_examples:
  "denyNames [] \<lparr>policy = Some \<lparr>allow = None, deny = Some [''bash'']\<rparr>, label = ''l'',
                  stripPluginOnlyAllowlist_opt = None\<rparr> \<lparr>name = ''exec''\<rparr>"
  "denyNames [] \<lparr>policy = Some \<lparr>allow = None, deny = Some [''bash'']\<rparr>, label = ''l'',
                  stripPluginOnlyAllowlist_opt = None\<rparr> \<lparr>name = ''bash''\<rparr>"
  "denyNames [] \<lparr>policy = Some \<lparr>allow = None, deny = Some [''Exec'']\<rparr>, label = ''l'',
                  stripPluginOnlyAllowlist_opt = None\<rparr> \<lparr>name = ''exec''\<rparr>"
  "denyNames [] \<lparr>policy = Some \<lparr>allow = None, deny = Some ['' exec '']\<rparr>, label = ''l'',
                  stripPluginOnlyAllowlist_opt = None\<rparr> \<lparr>name = ''exec''\<rparr>"
  "denyNames [] \<lparr>policy = Some \<lparr>allow = None, deny = Some [''constructor'']\<rparr>, label = ''l'',
                  stripPluginOnlyAllowlist_opt = None\<rparr> \<lparr>name = ''constructor''\<rparr>"
  "denyNames [(''group:plugin:Foo'', [''Plugin_Tool''])]
             \<lparr>policy = Some \<lparr>allow = None, deny = Some [''group:plugin:foo'']\<rparr>, label = ''l'',
              stripPluginOnlyAllowlist_opt = None\<rparr> \<lparr>name = ''plugin_tool''\<rparr>"
  "fst (applyToolPolicyPipeline
          [\<lparr>name = ''bash''\<rparr>, \<lparr>name = ''exec''\<rparr>, \<lparr>name = ''read''\<rparr>] (\<lambda>tool. None)
          [\<lparr>policy = Some \<lparr>allow = None, deny = Some [''bash'']\<rparr>, label = ''l'',
            stripPluginOnlyAllowlist_opt = None\<rparr>] None)
     = [\<lparr>name = ''read''\<rparr>]"
  by code_simp+

lemma snd_applyStep:
  "snd (applyStep core groups step (filtered, warnings)) = warnings
   \<or> (\<exists>unknown stripped.
         snd (applyStep core groups step (filtered, warnings))
           = warnings @ [unknownEntriesWarning (label step) unknown stripped])"
  by (auto simp: applyStep_def Let_def expandPolicyWithPluginGroups_def
      split: option.splits prod.splits)

lemma isStepWarning_unknownEntriesWarning [simp]:
  "isStepWarning (unknownEntriesWarning stepLabel unknown stripped)"
  by (simp add: isStepWarning_def unknownEntriesWarning_def Let_def)

lemma step_warning_not_post_filter: "isStepWarning w \<Longrightarrow> \<not> isPostFilterWarning w"
  by (cases w) (auto simp: isStepWarning_def isPostFilterWarning_def)

lemma step_warnings_applyStep:
  assumes "list_all isStepWarning (snd state)"
  shows "list_all isStepWarning (snd (applyStep core groups step state))"
proof (cases state)
  case (Pair filtered warnings)
  then show ?thesis
    using assms snd_applyStep [of core groups step filtered warnings]
    by auto
qed

lemma step_warnings_fold:
  "list_all isStepWarning (snd state)
     \<Longrightarrow> list_all isStepWarning (snd (fold (applyStep core groups) steps state))"
  by (induction steps arbitrary: state) (simp_all add: step_warnings_applyStep)

lemma pipeline_with_context:
  "applyToolPolicyPipeline tools toolMeta steps (Some ctx) =
     (fst (applyToolPolicyPipeline tools toolMeta steps None),
      snd (applyToolPolicyPipeline tools toolMeta steps None)
        @ postPipelineWarnings ctx (fst (applyToolPolicyPipeline tools toolMeta steps None)))"
  by (simp add: applyToolPolicyPipeline_def Let_def split: prod.splits)

lemma step_warnings_pipeline:
  "list_all isStepWarning (snd (applyToolPolicyPipeline tools toolMeta steps None))"
proof -
  have "list_all isStepWarning
          (snd (fold (applyStep core groups) steps (tools, [])))" for core groups
    by (rule step_warnings_fold) simp
  then show ?thesis
    by (simp add: applyToolPolicyPipeline_def Let_def split: prod.splits)
qed

lemma postPipelineWarnings_cases:
  "postPipelineWarnings ctx filtered =
     (if filtered = [] then [zeroToolsWarning (profileName ctx)]
      else if length filtered = 1
              \<and> Str ''session_status'' \<in> (\<lambda>t. normalizeToolName (name t)) ` set filtered
      then [onlySessionStatusWarning (profileName ctx)]
      else if orEmpty (headlineTools ctx) \<noteq> []
              \<and> (\<forall>h \<in> set (orEmpty (headlineTools ctx)).
                    normalizeToolName h \<notin> (\<lambda>t. normalizeToolName (name t)) ` set filtered)
      then [headlineLossWarning (profileName ctx) (orEmpty (headlineTools ctx)) (map name filtered)]
      else [])"
  by (simp add: postPipelineWarnings_def Let_def Set_has_def list_all_iff)

lemma post_filter_messages:
  "isPostFilterWarning (zeroToolsWarning pn)"
  "isPostFilterWarning (onlySessionStatusWarning pn)"
  "isPostFilterWarning (headlineLossWarning pn headline remainingNames)"
  by (simp_all add: isPostFilterWarning_def zeroToolsWarning_def onlySessionStatusWarning_def
      headlineLossWarning_def unknownEntriesWarning_def Let_def)

text \<open>
  Claim C8 (post-pipeline diagnostics). With a \<^verbatim>\<open>namedProfileContext\<close> the pipeline
  returns the same list as without one, and passes to \<^verbatim>\<open>warn\<close> the warnings of the steps
  followed by the post-filter warnings, which are: the zero-tools warning when the final list
  is empty; otherwise the only-session_status warning when the list has length 1 and a
  normalized name in it is \<open>session_status\<close>; otherwise the headline-loss warning when the
  headline list is not empty and no normalized entry of it is the normalized name of a
  remaining tool; otherwise nothing. So at most one message of the run is a post-filter
  warning, and none is when no context is supplied.
\<close>

theorem pipeline_post_filter_warning:
  "fst (applyToolPolicyPipeline tools toolMeta steps (Some ctx))
     = fst (applyToolPolicyPipeline tools toolMeta steps None)
   \<and> snd (applyToolPolicyPipeline tools toolMeta steps (Some ctx))
     = snd (applyToolPolicyPipeline tools toolMeta steps None)
       @ postPipelineWarnings ctx (fst (applyToolPolicyPipeline tools toolMeta steps (Some ctx)))
   \<and> postPipelineWarnings ctx filtered =
       (if filtered = [] then [zeroToolsWarning (profileName ctx)]
        else if length filtered = 1
                \<and> Str ''session_status'' \<in> (\<lambda>t. normalizeToolName (name t)) ` set filtered
        then [onlySessionStatusWarning (profileName ctx)]
        else if orEmpty (headlineTools ctx) \<noteq> []
                \<and> (\<forall>h \<in> set (orEmpty (headlineTools ctx)).
                      normalizeToolName h \<notin> (\<lambda>t. normalizeToolName (name t)) ` set filtered)
        then [headlineLossWarning (profileName ctx) (orEmpty (headlineTools ctx))
                (map name filtered)]
        else [])
   \<and> length (filter isPostFilterWarning
               (snd (applyToolPolicyPipeline tools toolMeta steps (Some ctx)))) \<le> 1
   \<and> filter isPostFilterWarning (snd (applyToolPolicyPipeline tools toolMeta steps None)) = []"
proof -
  have none: "filter isPostFilterWarning (snd (applyToolPolicyPipeline tools toolMeta steps None)) = []"
    using step_warnings_pipeline [of tools toolMeta steps]
    by (auto simp: filter_empty_conv list_all_iff dest: step_warning_not_post_filter)
  have "length (postPipelineWarnings ctx xs) \<le> 1" for xs :: "'a AnyAgentTool_scheme list"
    by (simp add: postPipelineWarnings_cases)
  then have "length (filter isPostFilterWarning (postPipelineWarnings ctx xs)) \<le> 1"
    for xs :: "'a AnyAgentTool_scheme list"
    by (meson le_trans length_filter_le)
  then show ?thesis
    using none by (simp add: pipeline_with_context postPipelineWarnings_cases [symmetric])
qed

theorem pipeline_post_filter_warning_witness:
  "applyToolPolicyPipeline
     [\<lparr>name = ''read''\<rparr>, \<lparr>name = ''exec''\<rparr>, \<lparr>name = ''session_status''\<rparr>]
     (\<lambda>tool. None)
     [\<lparr>policy = Some \<lparr>allow = Some [''read'', ''exec''], deny = None\<rparr>, label = ''test'',
       stripPluginOnlyAllowlist_opt = None\<rparr>]
     (Some \<lparr>profileName = ''marketing'', headlineTools = Some [''message'', ''web_search'']\<rparr>)
   = ([\<lparr>name = ''read''\<rparr>, \<lparr>name = ''exec''\<rparr>],
      [headlineLossWarning ''marketing'' [''message'', ''web_search''] [''read'', ''exec'']])
   \<and> postPipelineWarnings \<lparr>profileName = ''marketing'', headlineTools = Some [''message'']\<rparr>
        [\<lparr>name = '' Session_Status''\<rparr>]
     = [onlySessionStatusWarning ''marketing'']
   \<and> postPipelineWarnings \<lparr>profileName = ''marketing'', headlineTools = Some [''message'']\<rparr>
        ([] :: AnyAgentTool list)
     = [zeroToolsWarning ''marketing'']
   \<and> postPipelineWarnings \<lparr>profileName = ''coding'', headlineTools = Some [''read'', ''exec'']\<rparr>
        [\<lparr>name = ''read''\<rparr>, \<lparr>name = ''exec''\<rparr>, \<lparr>name = ''session_status''\<rparr>]
     = []"
proof -
  let ?tools = "[\<lparr>name = ''read''\<rparr>, \<lparr>name = ''exec''\<rparr>, \<lparr>name = ''session_status''\<rparr>]"
  let ?meta = "\<lambda>tool :: AnyAgentTool. None :: string option"
  let ?steps = "[\<lparr>policy = Some \<lparr>allow = Some [''read'', ''exec''], deny = None\<rparr>, label = ''test'',
                  stripPluginOnlyAllowlist_opt = None\<rparr>]"
  let ?marketing = "\<lparr>profileName = ''marketing'', headlineTools = Some [''message'', ''web_search'']\<rparr>"
  have base: "applyToolPolicyPipeline ?tools ?meta ?steps None
                = ([\<lparr>name = ''read''\<rparr>, \<lparr>name = ''exec''\<rparr>], [])"
    by code_simp
  have names: "normalizeToolName ''read'' = Str ''read''" "normalizeToolName ''exec'' = Str ''exec''"
    "normalizeToolName ''message'' = Str ''message''"
    "normalizeToolName ''web_search'' = Str ''web_search''"
    "normalizeToolName ''session_status'' = Str ''session_status''"
    "normalizeToolName '' Session_Status'' = Str ''session_status''"
    by code_simp+
  note fact = pipeline_post_filter_warning [of ?tools ?meta ?steps ?marketing]
  have whole: "applyToolPolicyPipeline ?tools ?meta ?steps (Some ?marketing)
     = ([\<lparr>name = ''read''\<rparr>, \<lparr>name = ''exec''\<rparr>],
        [headlineLossWarning ''marketing'' [''message'', ''web_search''] [''read'', ''exec'']])"
    using fact [of "[\<lparr>name = ''read''\<rparr>, \<lparr>name = ''exec''\<rparr>]"]
    by (simp add: base names orEmpty_def prod_eq_iff)
  have only: "postPipelineWarnings \<lparr>profileName = ''marketing'', headlineTools = Some [''message'']\<rparr>
        [\<lparr>name = '' Session_Status''\<rparr>] = [onlySessionStatusWarning ''marketing'']"
    using pipeline_post_filter_warning
      [of ?tools ?meta ?steps "\<lparr>profileName = ''marketing'', headlineTools = Some [''message'']\<rparr>"
        "[\<lparr>name = '' Session_Status''\<rparr>]"]
    by (simp add: names)
  have zero: "postPipelineWarnings \<lparr>profileName = ''marketing'', headlineTools = Some [''message'']\<rparr>
        ([] :: AnyAgentTool list) = [zeroToolsWarning ''marketing'']"
    using pipeline_post_filter_warning
      [of ?tools ?meta ?steps "\<lparr>profileName = ''marketing'', headlineTools = Some [''message'']\<rparr>"
        "[] :: AnyAgentTool list"]
    by simp
  have quiet: "postPipelineWarnings \<lparr>profileName = ''coding'', headlineTools = Some [''read'', ''exec'']\<rparr>
        [\<lparr>name = ''read''\<rparr>, \<lparr>name = ''exec''\<rparr>, \<lparr>name = ''session_status''\<rparr>] = []"
    using pipeline_post_filter_warning
      [of ?tools ?meta ?steps "\<lparr>profileName = ''coding'', headlineTools = Some [''read'', ''exec'']\<rparr>"
        "[\<lparr>name = ''read''\<rparr>, \<lparr>name = ''exec''\<rparr>, \<lparr>name = ''session_status''\<rparr>]"]
    by (simp add: names orEmpty_def)
  show ?thesis
    using whole only zero quiet by simp
qed

section \<open>Properties of the reset command\<close>

lemma hadOverrides_iff:
  "hadOverrides entry \<longleftrightarrow>
     (\<exists>e. entry = Some e \<and>
        ((\<exists>p. toolsProfileOverride e = Some p \<and> p \<noteq> [])
         \<or> (\<exists>l. toolsAllowOverride e = Some l \<and> l \<noteq> [])
         \<or> (\<exists>l. toolsDenyOverride e = Some l \<and> l \<noteq> [])
         \<or> (\<exists>m. toolsPromptListingOverride e = Some m)))"
  by (auto simp: hadOverrides_def falsyString_def split: option.splits)

lemma hadOverrides_clearOverrides [simp]: "\<not> hadOverrides (map_option clearOverrides entry)"
  by (cases entry) (simp_all add: hadOverrides_def clearOverrides_def falsyString_def)

lemma clearOverrides_idem [simp]: "clearOverrides (clearOverrides e) = clearOverrides e"
  by (simp add: clearOverrides_def)

lemma validReset_sessionEntry [simp]:
  "validReset (params\<lparr>sessionEntry := x\<rparr>) = validReset params"
  by (simp add: validReset_def)

lemma handle_valid:
  assumes "validReset params"
  shows "handleToolsResetCommand params True store =
     (Some \<lparr>reply = Some (if hadOverrides (sessionEntry params)
                           then ''Tool overrides cleared. Tools restored to config baseline.''
                           else ''No tool overrides were active.''),
            shouldContinue = False\<rparr>,
      params\<lparr>sessionEntry := map_option clearOverrides (sessionEntry params)\<rparr>,
      updateSessionStoreEntry (the (storePath params)) (the (sessionKey params)) clearOverrides store)"
  using assms by (simp add: handleToolsResetCommand_def validReset_def Let_def)

lemma update_twice:
  "updateSessionStoreEntry path key clearOverrides (updateSessionStoreEntry path key clearOverrides store)
     = updateSessionStoreEntry path key clearOverrides store"
  by (auto simp: updateSessionStoreEntry_def fun_eq_iff)

text \<open>
  Claim C5, as amended (reset reporting and idempotence). For the \<^verbatim>\<open>/tools:reset\<close>
  command of an authorized sender in an active session, the reply says that overrides were
  cleared exactly when, in \<^verbatim>\<open>params.sessionEntry\<close>, the profile override is a non-empty
  string, or the allow override or the deny override is a non-empty list, or the
  prompt-listing override is set. The reset clears the four fields of the entry and of the
  stored record, and a second reset right after it replies "No tool overrides were active."
  and leaves the entry and the store as the first reset left them.
\<close>

theorem reset_reports_truthy_overrides:
  assumes "validReset params"
  shows "(case handleToolsResetCommand params True store of
            (result, params', store') \<Rightarrow>
              result = Some \<lparr>reply = Some (if hadOverrides (sessionEntry params)
                             then ''Tool overrides cleared. Tools restored to config baseline.''
                             else ''No tool overrides were active.''),
                             shouldContinue = False\<rparr>
              \<and> sessionEntry params' = map_option clearOverrides (sessionEntry params)
              \<and> (\<exists>e. store' (the (storePath params)) (the (sessionKey params)) = Some e
                     \<and> toolsProfileOverride e = None \<and> toolsAllowOverride e = None
                     \<and> toolsDenyOverride e = None \<and> toolsPromptListingOverride e = None)
              \<and> handleToolsResetCommand params' True store' =
                  (Some \<lparr>reply = Some ''No tool overrides were active.'', shouldContinue = False\<rparr>,
                   params', store'))
         \<and> (hadOverrides (sessionEntry params) \<longleftrightarrow>
              (\<exists>e. sessionEntry params = Some e \<and>
                ((\<exists>p. toolsProfileOverride e = Some p \<and> p \<noteq> [])
                 \<or> (\<exists>l. toolsAllowOverride e = Some l \<and> l \<noteq> [])
                 \<or> (\<exists>l. toolsDenyOverride e = Some l \<and> l \<noteq> [])
                 \<or> (\<exists>m. toolsPromptListingOverride e = Some m))))"
proof -
  let ?p = "params\<lparr>sessionEntry := map_option clearOverrides (sessionEntry params)\<rparr>"
  let ?s = "updateSessionStoreEntry (the (storePath params)) (the (sessionKey params)) clearOverrides store"
  have first: "handleToolsResetCommand params True store =
     (Some \<lparr>reply = Some (if hadOverrides (sessionEntry params)
                           then ''Tool overrides cleared. Tools restored to config baseline.''
                           else ''No tool overrides were active.''),
            shouldContinue = False\<rparr>, ?p, ?s)"
    using assms by (rule handle_valid)
  have valid': "validReset ?p" using assms by simp
  have second: "handleToolsResetCommand ?p True ?s =
     (Some \<lparr>reply = Some ''No tool overrides were active.'', shouldContinue = False\<rparr>, ?p, ?s)"
    by (simp add: handle_valid [OF valid'] update_twice option.map_comp comp_def)
  have stored: "\<exists>e. ?s (the (storePath params)) (the (sessionKey params)) = Some e
                     \<and> toolsProfileOverride e = None \<and> toolsAllowOverride e = None
                     \<and> toolsDenyOverride e = None \<and> toolsPromptListingOverride e = None"
    by (simp add: updateSessionStoreEntry_def clearOverrides_def)
  show ?thesis
    unfolding first using second stored by (simp add: hadOverrides_iff)
qed


theorem reset_reports_truthy_overrides_witness:
  "validReset \<lparr>command = \<lparr>commandBodyNormalized = ''/tools:reset'', isAuthorizedSender = True\<rparr>,
               storePath = Some ''sessions.json'', sessionKey = Some ''main'',
               sessionEntry = Some \<lparr>toolsProfileOverride = Some ''coding'',
                                     toolsAllowOverride = Some [''read''],
                                     toolsDenyOverride = None,
                                     toolsPromptListingOverride = None\<rparr>\<rparr>
   \<and> (case handleToolsResetCommand
              \<lparr>command = \<lparr>commandBodyNormalized = ''/tools:reset'', isAuthorizedSender = True\<rparr>,
               storePath = Some ''sessions.json'', sessionKey = Some ''main'',
               sessionEntry = Some \<lparr>toolsProfileOverride = Some ''coding'',
                                     toolsAllowOverride = Some [''read''],
                                     toolsDenyOverride = None,
                                     toolsPromptListingOverride = None\<rparr>\<rparr>
              True (\<lambda>path. Map.empty) of
         (result, params', store') \<Rightarrow>
           result = Some \<lparr>reply = Some ''Tool overrides cleared. Tools restored to config baseline.'',
                          shouldContinue = False\<rparr>
           \<and> sessionEntry params' = Some emptySessionEntry
           \<and> store' ''sessions.json'' ''main'' = Some emptySessionEntry
           \<and> fst (handleToolsResetCommand params' True store')
               = Some \<lparr>reply = Some ''No tool overrides were active.'', shouldContinue = False\<rparr>)"
  (is "validReset ?p \<and> _")
proof -
  have v: "validReset ?p"
    by (simp add: validReset_def falsyString_def)
  have h: "hadOverrides (sessionEntry ?p)"
    by (simp add: hadOverrides_def falsyString_def)
  show ?thesis
    using v h reset_reports_truthy_overrides [OF v, of "\<lambda>path. Map.empty"]
    by (auto simp: clearOverrides_def emptySessionEntry_def split: prod.splits)
qed

text \<open>
  The claim as stated fails: an entry whose deny override is set to the empty list has a
  field set, and the reset still reports that no overrides were active.
\<close>

theorem reset_set_but_empty_counterexample:
  "\<not> (hadOverrides (Some \<lparr>toolsProfileOverride = None, toolsAllowOverride = None,
                          toolsDenyOverride = Some [], toolsPromptListingOverride = None\<rparr>)
       \<longleftrightarrow> toolsDenyOverride \<lparr>toolsProfileOverride = None, toolsAllowOverride = None,
                              toolsDenyOverride = Some [], toolsPromptListingOverride = None\<rparr> \<noteq> None)
   \<and> fst (handleToolsResetCommand
            \<lparr>command = \<lparr>commandBodyNormalized = ''/tools:reset'', isAuthorizedSender = True\<rparr>,
             storePath = Some ''sessions.json'', sessionKey = Some ''main'',
             sessionEntry = Some \<lparr>toolsProfileOverride = None, toolsAllowOverride = None,
                                   toolsDenyOverride = Some [],
                                   toolsPromptListingOverride = None\<rparr>\<rparr>
            True (\<lambda>path. Map.empty))
       = Some \<lparr>reply = Some ''No tool overrides were active.'', shouldContinue = False\<rparr>"
  by (simp add: handleToolsResetCommand_def hadOverrides_def falsyString_def Let_def)

text \<open>
  Claim C10 (empty-list overrides count as no overrides). When the only override fields
  that are set in \<^verbatim>\<open>params.sessionEntry\<close> are empty arrays (the allow override, the deny
  override, or both), \<^verbatim>\<open>hadOverrides\<close> is false and the reply is
  "No tool overrides were active.", although a field was present before the reset.
\<close>

theorem reset_empty_lists_report_no_overrides:
  assumes "validReset params"
    and "sessionEntry params = Some e"
    and "toolsProfileOverride e = None" and "toolsPromptListingOverride e = None"
    and "toolsAllowOverride e = None \<or> toolsAllowOverride e = Some []"
    and "toolsDenyOverride e = None \<or> toolsDenyOverride e = Some []"
    and "toolsAllowOverride e = Some [] \<or> toolsDenyOverride e = Some []"
  shows "\<not> hadOverrides (sessionEntry params)
         \<and> fst (handleToolsResetCommand params True store)
             = Some \<lparr>reply = Some ''No tool overrides were active.'', shouldContinue = False\<rparr>"
proof -
  have "\<not> hadOverrides (sessionEntry params)"
    using assms by (auto simp: hadOverrides_def falsyString_def)
  then show ?thesis
    using assms(1) by (simp add: handle_valid)
qed

theorem reset_empty_lists_report_no_overrides_witness:
  "validReset \<lparr>command = \<lparr>commandBodyNormalized = ''/tools:reset'', isAuthorizedSender = True\<rparr>,
               storePath = Some ''sessions.json'', sessionKey = Some ''main'',
               sessionEntry = Some \<lparr>toolsProfileOverride = None, toolsAllowOverride = Some [],
                                     toolsDenyOverride = Some [],
                                     toolsPromptListingOverride = None\<rparr>\<rparr>
   \<and> toolsAllowOverride \<lparr>toolsProfileOverride = None, toolsAllowOverride = Some [],
                          toolsDenyOverride = Some [], toolsPromptListingOverride = None\<rparr> = Some []
   \<and> fst (handleToolsResetCommand
            \<lparr>command = \<lparr>commandBodyNormalized = ''/tools:reset'', isAuthorizedSender = True\<rparr>,
             storePath = Some ''sessions.json'', sessionKey = Some ''main'',
             sessionEntry = Some \<lparr>toolsProfileOverride = None, toolsAllowOverride = Some [],
                                   toolsDenyOverride = Some [],
                                   toolsPromptListingOverride = None\<rparr>\<rparr>
            True (\<lambda>path. Map.empty))
       = Some \<lparr>reply = Some ''No tool overrides were active.'', shouldContinue = False\<rparr>"
  (is "validReset ?p \<and> _ \<and> _")
proof -
  have v: "validReset ?p"
    by (simp add: validReset_def falsyString_def)
  show ?thesis
    using v reset_empty_lists_report_no_overrides [OF v, of _ "\<lambda>path. Map.empty"]
    by simp
qed

end
